theory Spec2Isabelle
  imports Main "HOL-Library.Word" "HOL-Library.AList"
begin

section \<open>The DrugAuth contract\<close>

text \<open>
  The contract \<open>DrugAuth\<close> is an ERC721 token (one token per drug batch) with a
  per-token record, a per-token history of transfer events, a batch-code index and a
  role directory. Solidity's \<open>uint256\<close> and \<open>address\<close> are words of 256 and 160
  bits; a \<open>string\<close> is its list of bytes. A \<open>require\<close> that fails, and a revert
  inside the inherited token library, is a value of \<open>error\<close>; a call that reverts
  leaves the storage as it was.
\<close>

type_synonym address = "160 word"
type_synonym uint256 = "256 word"

record Drug =
  batchId :: string
  drugName :: string
  manufacturer :: string
  expiryDate :: uint256
  ipfsHash :: string
  currentOwner :: address
  timestamp :: uint256
  isActive :: bool

text \<open>\<open>TransferEvent\<close>: the fields \<open>from\<close>, \<open>to\<close>, \<open>timestamp\<close>, \<open>eventType\<close>.\<close>

record TransferEvent =
  ev_from :: address
  ev_to :: address
  ev_timestamp :: uint256
  eventType :: string

text \<open>The events the contract itself emits.\<close>

datatype log =
    DrugRegistered uint256 string address string string
  | OwnershipTransferred uint256 address address string
  | RoleAssigned address string

text \<open>The revert reasons, each with the message of its \<open>require\<close>.\<close>

datatype error =
    BatchIdEmpty            \<comment> \<open>"Batch ID cannot be empty"\<close>
  | DrugNameEmpty           \<comment> \<open>"Drug name cannot be empty"\<close>
  | ManufacturerEmpty       \<comment> \<open>"Manufacturer cannot be empty"\<close>
  | ExpiryNotFuture         \<comment> \<open>"Expiry date must be in the future"\<close>
  | BatchIdExists           \<comment> \<open>"Batch ID already exists"\<close>
  | NotTokenOwner           \<comment> \<open>"Not the token owner"\<close>
  | TransferToZero          \<comment> \<open>"Cannot transfer to zero address"\<close>
  | TransferToCurrentOwner  \<comment> \<open>"Cannot transfer to current owner"\<close>
  | DrugNotActive           \<comment> \<open>"Drug is not active"\<close>
  | DrugExpired             \<comment> \<open>"Drug has expired"\<close>
  | DrugDoesNotExist        \<comment> \<open>"Drug does not exist"\<close>
  | BatchIdDoesNotExist     \<comment> \<open>"Batch ID does not exist"\<close>
  | InvalidTokenId          \<comment> \<open>"ERC721: invalid token ID"\<close>
  | ZeroAddressOwner        \<comment> \<open>"ERC721: address zero is not a valid owner"\<close>
  | MintToZero              \<comment> \<open>"ERC721: mint to the zero address"\<close>
  | AlreadyMinted           \<comment> \<open>"ERC721: token already minted"\<close>
  | TransferIncorrectOwner  \<comment> \<open>"ERC721: transfer from incorrect owner"\<close>
  | TransferToZeroAddress   \<comment> \<open>"ERC721: transfer to the zero address"\<close>
  | IndexOutOfBounds        \<comment> \<open>"ERC721Enumerable: owner index out of bounds"\<close>
  | ApprovalToCurrentOwner  \<comment> \<open>"ERC721: approval to current owner"\<close>
  | ApproveCallerNotOwner   \<comment> \<open>"ERC721: approve caller is not token owner or approved for all"\<close>
  | ApproveToCaller         \<comment> \<open>"ERC721: approve to caller"\<close>
  | CallerNotApproved       \<comment> \<open>"ERC721: caller is not token owner or approved"\<close>
  | CallerNotOwner          \<comment> \<open>"Ownable: caller is not the owner"\<close>
  | NewOwnerZero            \<comment> \<open>"Ownable: new owner is the zero address"\<close>
  | Panic                   \<comment> \<open>checked arithmetic underflow\<close>

text \<open>
  The storage. \<open>tokenIdCounter\<close>, \<open>drugs\<close>, \<open>batchIdToTokenId\<close>, \<open>drugHistory\<close>
  and \<open>userRoles\<close> are the contract's own variables. The inherited OpenZeppelin
  contracts (ERC721, ERC721Enumerable, Ownable, version 4) are not part of the
  repository; their storage is kept as far as the contract's functions read it:
  \<open>owners\<close>, \<open>tokenApprovals\<close> and \<open>operatorApprovals\<close> are ERC721's \<open>_owners\<close>,
  \<open>_tokenApprovals\<close> and \<open>_operatorApprovals\<close>, \<open>contractOwner\<close> is Ownable's
  \<open>_owner\<close>, and \<open>ownedTokens\<close> holds, for every address, the tokens of
  ERC721Enumerable's \<open>_ownedTokens[owner][0..balance-1]\<close> in index order, so that
  ERC721's balance is the length of that list and \<open>_ownedTokensIndex\<close> is the
  position of a token in its owner's list.

  A batch has two records of its owner: the owner of its token (\<open>owners\<close>, read by
  \<open>ownerOf\<close>), by which the contract authorizes, and the \<open>currentOwner\<close> field of
  its \<open>Drug\<close>, which \<open>registerDrug\<close> and \<open>transferOwnership\<close> write together with it
  and which the token library's own transfer functions do not touch.
\<close>

record DrugAuth =
  tokenIdCounter :: uint256
  drugs :: "uint256 \<Rightarrow> Drug"
  batchIdToTokenId :: "string \<Rightarrow> uint256"
  drugHistory :: "uint256 \<Rightarrow> TransferEvent list"
  userRoles :: "address \<Rightarrow> string"
  owners :: "uint256 \<Rightarrow> address"
  ownedTokens :: "address \<Rightarrow> uint256 list"
  tokenApprovals :: "uint256 \<Rightarrow> address"
  operatorApprovals :: "address \<Rightarrow> address \<Rightarrow> bool"
  contractOwner :: address
  logs :: "log list"

text \<open>The value of a \<open>Drug\<close> slot that was never written.\<close>

definition zeroDrug :: Drug where
  "zeroDrug = \<lparr>batchId = [], drugName = [], manufacturer = [], expiryDate = 0,
     ipfsHash = [], currentOwner = 0, timestamp = 0, isActive = False\<rparr>"

subsection \<open>The inherited token library\<close>

text \<open>
  Modelled from the spec: the OpenZeppelin contracts that \<open>DrugAuth\<close> inherits
  (ERC721, ERC721Enumerable, Ownable, Counters) are not among the repository's
  sources. The functions of them that the contract calls, and the state-changing
  entry points it inherits from them, are written here as version 4 of the library
  defines them: a token exists when it has a non-zero owner, \<open>ownerOf\<close> and
  \<open>balanceOf\<close> revert on a missing token and on the zero address, minting and
  transferring keep the per-owner enumeration (the specification's owner index:
  remove from the old owner's set, add to the new owner's), a transfer clears the
  token's approval, and the counter's increment is unchecked.
\<close>

definition exists_token :: "DrugAuth \<Rightarrow> uint256 \<Rightarrow> bool" where
  "exists_token s tokenId = (owners s tokenId \<noteq> 0)"

definition ownerOf :: "DrugAuth \<Rightarrow> uint256 \<Rightarrow> error + address" where
  "ownerOf s tokenId =
     (if owners s tokenId = 0 then Inl InvalidTokenId else Inr (owners s tokenId))"



definition ownedTokensIndex :: "DrugAuth \<Rightarrow> uint256 \<Rightarrow> nat" where
  "ownedTokensIndex s tokenId =
     length (takeWhile (\<lambda>t. t \<noteq> tokenId) (ownedTokens s (owners s tokenId)))"

definition addTokenToOwnerEnumeration :: "DrugAuth \<Rightarrow> address \<Rightarrow> uint256 \<Rightarrow> DrugAuth" where
  "addTokenToOwnerEnumeration s to tokenId =
     s\<lparr>ownedTokens := (ownedTokens s)(to := ownedTokens s to @ [tokenId])\<rparr>"

text \<open>
  Removal moves the owner's last token into the slot of the removed one and drops the
  last slot. \<open>balanceOf(from) - 1\<close> is checked arithmetic.
\<close>

definition removeTokenFromOwnerEnumeration ::
  "DrugAuth \<Rightarrow> address \<Rightarrow> uint256 \<Rightarrow> error + DrugAuth" where
  "removeTokenFromOwnerEnumeration s frm tokenId =
     (let xs = ownedTokens s frm in
      if xs = [] then Inl Panic
      else
        let lastTokenIndex = length xs - 1;
            tokenIndex = ownedTokensIndex s tokenId;
            ys = (if tokenIndex \<noteq> lastTokenIndex
                  then xs[tokenIndex := xs ! lastTokenIndex] else xs)
        in Inr (s\<lparr>ownedTokens := (ownedTokens s)(frm := butlast ys)\<rparr>))"

text \<open>
  \<open>_safeMint\<close>: \<open>_mint\<close>, then the receiver hook, which is a call only when the
  recipient is a contract; the callers here are externally owned accounts, for which
  the hook accepts.
\<close>

definition safeMint :: "DrugAuth \<Rightarrow> address \<Rightarrow> uint256 \<Rightarrow> error + DrugAuth" where
  "safeMint s to tokenId =
     (if to = 0 then Inl MintToZero
      else if exists_token s tokenId then Inl AlreadyMinted
      else
        let s1 = addTokenToOwnerEnumeration s to tokenId
        in Inr (s1\<lparr>owners := (owners s1)(tokenId := to)\<rparr>))"

text \<open>
  \<open>_transfer\<close>, with ERC721Enumerable's \<open>_beforeTokenTransfer\<close> hook, which leaves
  the enumeration alone when the sender and the recipient are the same address.
\<close>

definition transfer_token :: "DrugAuth \<Rightarrow> address \<Rightarrow> address \<Rightarrow> uint256 \<Rightarrow> error + DrugAuth" where
  "transfer_token s frm to tokenId =
     (case ownerOf s tokenId of
        Inl e \<Rightarrow> Inl e
      | Inr owner \<Rightarrow>
          if owner \<noteq> frm then Inl TransferIncorrectOwner
          else if to = 0 then Inl TransferToZeroAddress
          else if frm = to
          then Inr (s\<lparr>tokenApprovals := (tokenApprovals s)(tokenId := 0)\<rparr>)
          else
            (case removeTokenFromOwnerEnumeration s frm tokenId of
               Inl e \<Rightarrow> Inl e
             | Inr s1 \<Rightarrow>
                 let s2 = addTokenToOwnerEnumeration s1 to tokenId
                 in Inr (s2\<lparr>owners := (owners s2)(tokenId := to),
                         tokenApprovals := (tokenApprovals s2)(tokenId := 0)\<rparr>)))"

text \<open>
  The entry points of ERC721 that change the storage. \<open>safeTransferFrom\<close> is
  \<open>transferFrom\<close> followed by the receiver hook, which accepts for the externally
  owned accounts that are the recipients here.
\<close>

definition isApprovedOrOwner :: "DrugAuth \<Rightarrow> address \<Rightarrow> uint256 \<Rightarrow> error + bool" where
  "isApprovedOrOwner s spender tokenId =
     (case ownerOf s tokenId of
        Inl e \<Rightarrow> Inl e
      | Inr owner \<Rightarrow>
          Inr (spender = owner \<or> operatorApprovals s owner spender \<or>
               tokenApprovals s tokenId = spender))"

definition approve :: "address \<Rightarrow> address \<Rightarrow> uint256 \<Rightarrow> DrugAuth \<Rightarrow> error + DrugAuth" where
  "approve sender to tokenId s =
     (case ownerOf s tokenId of
        Inl e \<Rightarrow> Inl e
      | Inr owner \<Rightarrow>
          if \<not> to \<noteq> owner then Inl ApprovalToCurrentOwner
          else if \<not> (sender = owner \<or> operatorApprovals s owner sender)
          then Inl ApproveCallerNotOwner
          else Inr (s\<lparr>tokenApprovals := (tokenApprovals s)(tokenId := to)\<rparr>))"

definition setApprovalForAll :: "address \<Rightarrow> address \<Rightarrow> bool \<Rightarrow> DrugAuth \<Rightarrow> error + DrugAuth" where
  "setApprovalForAll sender operator approved s =
     (if \<not> sender \<noteq> operator then Inl ApproveToCaller
      else Inr (s\<lparr>operatorApprovals :=
                  (operatorApprovals s)(sender := (operatorApprovals s sender)(operator := approved))\<rparr>))"

definition transferFrom ::
  "address \<Rightarrow> address \<Rightarrow> address \<Rightarrow> uint256 \<Rightarrow> DrugAuth \<Rightarrow> error + DrugAuth" where
  "transferFrom sender frm to tokenId s =
     (case isApprovedOrOwner s sender tokenId of
        Inl e \<Rightarrow> Inl e
      | Inr ok \<Rightarrow>
          if \<not> ok then Inl CallerNotApproved else transfer_token s frm to tokenId)"

definition safeTransferFrom ::
  "address \<Rightarrow> address \<Rightarrow> address \<Rightarrow> uint256 \<Rightarrow> DrugAuth \<Rightarrow> error + DrugAuth" where
  "safeTransferFrom sender frm to tokenId s = transferFrom sender frm to tokenId s"

text \<open>
  The entry points of Ownable. Its \<open>transferOwnership(address)\<close> is an overload of
  the contract's own \<open>transferOwnership\<close>, named \<open>transferContractOwnership\<close> here.
\<close>

definition transferContractOwnership :: "address \<Rightarrow> address \<Rightarrow> DrugAuth \<Rightarrow> error + DrugAuth" where
  "transferContractOwnership sender newOwner s =
     (if \<not> contractOwner s = sender then Inl CallerNotOwner
      else if \<not> newOwner \<noteq> 0 then Inl NewOwnerZero
      else Inr (s\<lparr>contractOwner := newOwner\<rparr>))"

definition renounceOwnership :: "address \<Rightarrow> DrugAuth \<Rightarrow> error + DrugAuth" where
  "renounceOwnership sender s =
     (if \<not> contractOwner s = sender then Inl CallerNotOwner
      else Inr (s\<lparr>contractOwner := 0\<rparr>))"

subsection \<open>The contract's functions\<close>

text \<open>
  Every function takes \<open>msg.sender\<close> and \<open>block.timestamp\<close> where it reads them.
\<close>

definition constructor :: "address \<Rightarrow> DrugAuth" where
  "constructor sender =
     \<lparr>tokenIdCounter = 0, drugs = (\<lambda>_. zeroDrug), batchIdToTokenId = (\<lambda>_. 0),
      drugHistory = (\<lambda>_. []), userRoles = (\<lambda>_. [])(sender := ''manufacturer''),
      owners = (\<lambda>_. 0), ownedTokens = (\<lambda>_. []), tokenApprovals = (\<lambda>_. 0),
      operatorApprovals = (\<lambda>_ _. False), contractOwner = sender, logs = []\<rparr>"

definition registerDrug ::
  "address \<Rightarrow> uint256 \<Rightarrow> string \<Rightarrow> string \<Rightarrow> string \<Rightarrow> uint256 \<Rightarrow> string \<Rightarrow> DrugAuth
     \<Rightarrow> error + (uint256 \<times> DrugAuth)" where
  "registerDrug sender now bid dname manu expiry ipfs s =
     (if \<not> length bid > 0 then Inl BatchIdEmpty
      else if \<not> length dname > 0 then Inl DrugNameEmpty
      else if \<not> length manu > 0 then Inl ManufacturerEmpty
      else if \<not> expiry > now then Inl ExpiryNotFuture
      else if \<not> batchIdToTokenId s bid = 0 then Inl BatchIdExists
      else
        let s1 = s\<lparr>tokenIdCounter := tokenIdCounter s + 1\<rparr>;
            tokenId = tokenIdCounter s1
        in case safeMint s1 sender tokenId of
             Inl e \<Rightarrow> Inl e
           | Inr s2 \<Rightarrow>
               Inr (tokenId,
                 s2\<lparr>drugs := (drugs s2)(tokenId :=
                        \<lparr>batchId = bid, drugName = dname, manufacturer = manu,
                         expiryDate = expiry, ipfsHash = ipfs, currentOwner = sender,
                         timestamp = now, isActive = True\<rparr>),
                    batchIdToTokenId := (batchIdToTokenId s2)(bid := tokenId),
                    drugHistory := (drugHistory s2)(tokenId := drugHistory s2 tokenId @
                        [\<lparr>ev_from = 0, ev_to = sender, ev_timestamp = now,
                          eventType = ''manufacture''\<rparr>]),
                    logs := logs s2 @ [DrugRegistered tokenId bid sender dname manu]\<rparr>))"

definition transferOwnership ::
  "address \<Rightarrow> uint256 \<Rightarrow> uint256 \<Rightarrow> address \<Rightarrow> string \<Rightarrow> DrugAuth \<Rightarrow> error + DrugAuth" where
  "transferOwnership sender now tokenId to etype s =
     (case ownerOf s tokenId of
        Inl e \<Rightarrow> Inl e
      | Inr owner \<Rightarrow>
          if \<not> owner = sender then Inl NotTokenOwner
          else if \<not> to \<noteq> 0 then Inl TransferToZero
          else if \<not> to \<noteq> owner then Inl TransferToCurrentOwner
          else if \<not> isActive (drugs s tokenId) then Inl DrugNotActive
          else if \<not> expiryDate (drugs s tokenId) > now then Inl DrugExpired
          else
            (case transfer_token s owner to tokenId of
               Inl e \<Rightarrow> Inl e
             | Inr s1 \<Rightarrow>
                 Inr (s1\<lparr>drugs := (drugs s1)(tokenId := (drugs s1 tokenId)\<lparr>currentOwner := to\<rparr>),
                        drugHistory := (drugHistory s1)(tokenId := drugHistory s1 tokenId @
                          [\<lparr>ev_from = owner, ev_to = to, ev_timestamp = now,
                            eventType = etype\<rparr>]),
                        logs := logs s1 @ [OwnershipTransferred tokenId owner to etype]\<rparr>)))"

definition verifyDrug :: "DrugAuth \<Rightarrow> uint256 \<Rightarrow> error + Drug" where
  "verifyDrug s tokenId =
     (if \<not> exists_token s tokenId then Inl DrugDoesNotExist else Inr (drugs s tokenId))"

definition verifyDrugByBatchId :: "DrugAuth \<Rightarrow> string \<Rightarrow> error + Drug" where
  "verifyDrugByBatchId s bid =
     (let tokenId = batchIdToTokenId s bid
      in if \<not> tokenId \<noteq> 0 then Inl BatchIdDoesNotExist else Inr (drugs s tokenId))"

definition getDrugHistory :: "DrugAuth \<Rightarrow> uint256 \<Rightarrow> error + TransferEvent list" where
  "getDrugHistory s tokenId =
     (if \<not> exists_token s tokenId then Inl DrugDoesNotExist else Inr (drugHistory s tokenId))"

definition deactivateDrug :: "address \<Rightarrow> uint256 \<Rightarrow> DrugAuth \<Rightarrow> error + DrugAuth" where
  "deactivateDrug sender tokenId s =
     (case ownerOf s tokenId of
        Inl e \<Rightarrow> Inl e
      | Inr owner \<Rightarrow>
          if \<not> owner = sender then Inl NotTokenOwner
          else Inr (s\<lparr>drugs := (drugs s)(tokenId := (drugs s tokenId)\<lparr>isActive := False\<rparr>)\<rparr>))"

definition assignRole :: "address \<Rightarrow> address \<Rightarrow> string \<Rightarrow> DrugAuth \<Rightarrow> error + DrugAuth" where
  "assignRole sender user role s =
     (if \<not> contractOwner s = sender then Inl CallerNotOwner
      else Inr (s\<lparr>userRoles := (userRoles s)(user := role),
                  logs := logs s @ [RoleAssigned user role]\<rparr>))"

definition getUserRole :: "DrugAuth \<Rightarrow> address \<Rightarrow> string" where
  "getUserRole s user = userRoles s user"



definition totalDrugs :: "DrugAuth \<Rightarrow> uint256" where
  "totalDrugs s = tokenIdCounter s"

subsection \<open>Transactions\<close>

text \<open>
  A transaction is one call of a state-changing function by a sender at a block time.
  \<open>exec\<close> gives what the call returns and the storage after it; \<open>transact\<close> is the
  storage after the transaction, which is the old storage when the call reverts.
  \<open>run\<close> executes a sequence of transactions. The calls are those of the four
  state-changing functions the contract declares and of the public state-changing
  functions it inherits from ERC721 and Ownable; \<open>own_function\<close> tells the former
  from the latter.
\<close>

datatype call =
    RegisterDrug string string string uint256 string
  | TransferOwnership uint256 address string
  | DeactivateDrug uint256
  | AssignRole address string
  | TransferFrom address address uint256
  | SafeTransferFrom address address uint256
  | Approve address uint256
  | SetApprovalForAll address bool
  | TransferContractOwnership address
  | RenounceOwnership

fun own_function :: "call \<Rightarrow> bool" where
  "own_function (RegisterDrug bid dname manu expiry ipfs) = True"
| "own_function (TransferOwnership tokenId to etype) = True"
| "own_function (DeactivateDrug tokenId) = True"
| "own_function (AssignRole user role) = True"
| "own_function _ = False"

datatype retdata = RetNone | RetUint uint256

fun exec :: "address \<Rightarrow> uint256 \<Rightarrow> call \<Rightarrow> DrugAuth \<Rightarrow> error + (retdata \<times> DrugAuth)" where
  "exec sender now (RegisterDrug bid dname manu expiry ipfs) s =
     (case registerDrug sender now bid dname manu expiry ipfs s of
        Inl e \<Rightarrow> Inl e | Inr (tokenId, s') \<Rightarrow> Inr (RetUint tokenId, s'))"
| "exec sender now (TransferOwnership tokenId to etype) s =
     (case transferOwnership sender now tokenId to etype s of
        Inl e \<Rightarrow> Inl e | Inr s' \<Rightarrow> Inr (RetNone, s'))"
| "exec sender now (DeactivateDrug tokenId) s =
     (case deactivateDrug sender tokenId s of
        Inl e \<Rightarrow> Inl e | Inr s' \<Rightarrow> Inr (RetNone, s'))"
| "exec sender now (AssignRole user role) s =
     (case assignRole sender user role s of
        Inl e \<Rightarrow> Inl e | Inr s' \<Rightarrow> Inr (RetNone, s'))"
| "exec sender now (TransferFrom frm to tokenId) s =
     (case transferFrom sender frm to tokenId s of
        Inl e \<Rightarrow> Inl e | Inr s' \<Rightarrow> Inr (RetNone, s'))"
| "exec sender now (SafeTransferFrom frm to tokenId) s =
     (case safeTransferFrom sender frm to tokenId s of
        Inl e \<Rightarrow> Inl e | Inr s' \<Rightarrow> Inr (RetNone, s'))"
| "exec sender now (Approve to tokenId) s =
     (case approve sender to tokenId s of
        Inl e \<Rightarrow> Inl e | Inr s' \<Rightarrow> Inr (RetNone, s'))"
| "exec sender now (SetApprovalForAll operator approved) s =
     (case setApprovalForAll sender operator approved s of
        Inl e \<Rightarrow> Inl e | Inr s' \<Rightarrow> Inr (RetNone, s'))"
| "exec sender now (TransferContractOwnership newOwner) s =
     (case transferContractOwnership sender newOwner s of
        Inl e \<Rightarrow> Inl e | Inr s' \<Rightarrow> Inr (RetNone, s'))"
| "exec sender now RenounceOwnership s =
     (case renounceOwnership sender s of
        Inl e \<Rightarrow> Inl e | Inr s' \<Rightarrow> Inr (RetNone, s'))"

definition transact :: "address \<Rightarrow> uint256 \<Rightarrow> call \<Rightarrow> DrugAuth \<Rightarrow> DrugAuth" where
  "transact sender now c s = (case exec sender now c s of Inl e \<Rightarrow> s | Inr (r, s') \<Rightarrow> s')"

fun run :: "(address \<times> uint256 \<times> call) list \<Rightarrow> DrugAuth \<Rightarrow> DrugAuth" where
  "run [] s = s"
| "run ((sender, now, c) # cs) s = run cs (transact sender now c s)"


subsection \<open>Error kinds and lifecycle predicates\<close>

text \<open>
  The kinds of failure a caller distinguishes, and the kind of each revert reason of
  the contract. The reverts that only the token library raises have no kind.
\<close>

datatype error_kind =
  ValidationError | ConflictError | AuthorizationError | NotFoundError | StateError

fun kind :: "error \<Rightarrow> error_kind option" where
  "kind BatchIdEmpty = Some ValidationError"
| "kind DrugNameEmpty = Some ValidationError"
| "kind ManufacturerEmpty = Some ValidationError"
| "kind ExpiryNotFuture = Some ValidationError"
| "kind TransferToZero = Some ValidationError"
| "kind TransferToCurrentOwner = Some ValidationError"
| "kind BatchIdExists = Some ConflictError"
| "kind NotTokenOwner = Some AuthorizationError"
| "kind CallerNotOwner = Some AuthorizationError"
| "kind DrugDoesNotExist = Some NotFoundError"
| "kind BatchIdDoesNotExist = Some NotFoundError"
| "kind InvalidTokenId = Some NotFoundError"
| "kind DrugNotActive = Some StateError"
| "kind DrugExpired = Some StateError"
| "kind _ = None"

text \<open>
  The preconditions of a transfer in the order the specification lists them, with the
  check each revert reason of \<open>transferOwnership\<close> belongs to and the kind of error
  each check stands for. The current owner of a batch is the owner of its token, the
  one \<open>ownerOf\<close> returns.
\<close>

datatype transfer_check =
    BatchExists | RequesterIsOwner | NewOwnerDiffers | NewOwnerNonEmpty
  | BatchActive | BatchNotExpired

definition first_failing_check ::
  "DrugAuth \<Rightarrow> uint256 \<Rightarrow> address \<Rightarrow> address \<Rightarrow> uint256 \<Rightarrow> transfer_check option" where
  "first_failing_check s batch requester newOwner now =
     (case ownerOf s batch of
        Inl e \<Rightarrow> Some BatchExists
      | Inr owner \<Rightarrow>
          if requester \<noteq> owner then Some RequesterIsOwner
          else if newOwner = owner then Some NewOwnerDiffers
          else if newOwner = 0 then Some NewOwnerNonEmpty
          else if \<not> isActive (drugs s batch) then Some BatchActive
          else if \<not> now < expiryDate (drugs s batch) then Some BatchNotExpired
          else None)"

fun check_kind :: "transfer_check \<Rightarrow> error_kind" where
  "check_kind BatchExists = NotFoundError"
| "check_kind RequesterIsOwner = AuthorizationError"
| "check_kind NewOwnerDiffers = ValidationError"
| "check_kind NewOwnerNonEmpty = ValidationError"
| "check_kind BatchActive = StateError"
| "check_kind BatchNotExpired = StateError"

fun failed_check :: "error \<Rightarrow> transfer_check option" where
  "failed_check InvalidTokenId = Some BatchExists"
| "failed_check NotTokenOwner = Some RequesterIsOwner"
| "failed_check TransferToCurrentOwner = Some NewOwnerDiffers"
| "failed_check TransferToZero = Some NewOwnerNonEmpty"
| "failed_check DrugNotActive = Some BatchActive"
| "failed_check DrugExpired = Some BatchNotExpired"
| "failed_check _ = None"

text \<open>A batch code is registered when some existing token carries it.\<close>

definition registered :: "DrugAuth \<Rightarrow> string \<Rightarrow> bool" where
  "registered s bid \<longleftrightarrow> (\<exists>t. exists_token s t \<and> batchId (drugs s t) = bid)"

subsection \<open>Invariants of the storage\<close>

text \<open>The list that \<open>removeTokenFromOwnerEnumeration\<close> leaves for the previous owner.\<close>

definition swap_pop :: "uint256 list \<Rightarrow> uint256 \<Rightarrow> uint256 list" where
  "swap_pop xs t = butlast (if length (takeWhile (\<lambda>x. x \<noteq> t) xs) \<noteq> length xs - 1
            then xs[length (takeWhile (\<lambda>x. x \<noteq> t) xs) := xs ! (length xs - 1)]
            else xs)"

text \<open>
  The owner enumeration lists, without repetition, exactly the tokens each address
  owns.
\<close>

definition enum_ok :: "DrugAuth \<Rightarrow> bool" where
  "enum_ok s \<longleftrightarrow>
     (\<forall>owner. distinct (ownedTokens s owner)) \<and>
     (\<forall>owner t. t \<in> set (ownedTokens s owner) \<longleftrightarrow> owner \<noteq> 0 \<and> owners s t = owner)"

text \<open>
  A token that does not exist has no history. The history of one that exists starts
  with the manufacture event from the zero address, has no other event from the zero
  address, and ends at the \<open>currentOwner\<close> of the record.
\<close>

definition history_ok :: "DrugAuth \<Rightarrow> bool" where
  "history_ok s \<longleftrightarrow>
     (\<forall>t. (owners s t = 0 \<longrightarrow> drugHistory s t = []) \<and>
          (owners s t \<noteq> 0 \<longrightarrow>
             drugHistory s t \<noteq> [] \<and> ev_from (hd (drugHistory s t)) = 0 \<and>
             eventType (hd (drugHistory s t)) = ''manufacture'' \<and>
             (\<forall>e \<in> set (tl (drugHistory s t)). ev_from e \<noteq> 0) \<and>
             currentOwner (drugs s t) = ev_to (last (drugHistory s t))))"

text \<open>The record of every existing token names the token's owner.\<close>

definition owner_sync :: "DrugAuth \<Rightarrow> bool" where
  "owner_sync s \<longleftrightarrow> (\<forall>t. owners s t \<noteq> 0 \<longrightarrow> currentOwner (drugs s t) = owners s t)"

definition state_ok :: "DrugAuth \<Rightarrow> bool" where
  "state_ok s \<longleftrightarrow> enum_ok s \<and> history_ok s"

text \<open>
  The batch-code index and the records agree, and token 0 does not exist: the index
  uses 0 for a code that is not registered.
\<close>

definition codes_ok :: "DrugAuth \<Rightarrow> bool" where
  "codes_ok s \<longleftrightarrow>
     owners s 0 = 0 \<and>
     (\<forall>t. owners s t \<noteq> 0 \<longrightarrow> batchIdToTokenId s (batchId (drugs s t)) = t) \<and>
     (\<forall>b. batchIdToTokenId s b \<noteq> 0 \<longrightarrow>
          owners s (batchIdToTokenId s b) \<noteq> 0 \<and>
          batchId (drugs s (batchIdToTokenId s b)) = b)"


section \<open>The server's in-memory storage\<close>

text \<open>
  \<open>MemStorage\<close> keeps drug batches and supply chain events in JavaScript maps keyed
  by a random id. A map is an association list in insertion order: \<open>Map.set\<close>
  replaces the value of a key in place or appends a new entry, which is
  \<open>AList.update\<close>; \<open>Map.get\<close> is \<open>map_of\<close>. A date is its number of milliseconds.
  The random id and the current time of a call are arguments. A field that may be
  \<open>null\<close> or \<open>undefined\<close> is an \<open>option\<close>. A string is the list of the bytes of
  its UTF-8 encoding, so that a character below 128 is an ASCII character and every
  character of a string that is not ASCII is 128 or more.
\<close>

record DrugBatch =
  db_id :: string
  db_batchId :: string
  db_drugName :: string
  db_manufacturer :: string
  db_manufacturingDate :: int
  db_expiryDate :: int
  db_currentOwner :: string
  db_currentOwnerAddress :: string
  db_status :: string
  db_ipfsHash :: "string option"
  db_contractAddress :: "string option"
  db_tokenId :: "int option"
  db_createdAt :: int
  db_updatedAt :: int

record InsertDrugBatch =
  in_batchId :: string
  in_drugName :: string
  in_manufacturer :: string
  in_manufacturingDate :: int
  in_expiryDate :: int
  in_currentOwner :: string
  in_currentOwnerAddress :: string
  in_status :: "string option"
  in_ipfsHash :: "string option"
  in_contractAddress :: "string option"
  in_tokenId :: "int option"

record SupplyChainEvent =
  se_id :: string
  se_batchId :: string
  se_fromOwner :: "string option"
  se_toOwner :: string
  se_fromOwnerAddress :: "string option"
  se_toOwnerAddress :: string
  se_eventType :: string
  se_transactionHash :: "string option"
  se_blockNumber :: "int option"
  se_timestamp :: int

record InsertSupplyChainEvent =
  ie_batchId :: string
  ie_fromOwner :: "string option"
  ie_toOwner :: string
  ie_fromOwnerAddress :: "string option"
  ie_toOwnerAddress :: string
  ie_eventType :: string
  ie_transactionHash :: "string option"
  ie_blockNumber :: "int option"

record MemStorage =
  drugBatches :: "(string \<times> DrugBatch) list"
  supplyChainEvents :: "(string \<times> SupplyChainEvent) list"

record DashboardStats =
  totalBatches :: nat
  activeTransfers :: nat
  verifiedDrugs :: nat
  gasUsed :: string

definition newMemStorage :: MemStorage where
  "newMemStorage = \<lparr>drugBatches = [], supplyChainEvents = []\<rparr>"




text \<open>\<open>x || y\<close> on strings that may be absent: the empty string is falsy.\<close>

definition falsy :: "string option \<Rightarrow> bool" where
  "falsy x \<longleftrightarrow> x = None \<or> x = Some []"

definition or_null :: "string option \<Rightarrow> string option" where
  "or_null x = (if falsy x then None else x)"

definition values_of :: "('k \<times> 'v) list \<Rightarrow> 'v list" where
  "values_of m = map snd m"

definition getDrugBatchById :: "MemStorage \<Rightarrow> string \<Rightarrow> DrugBatch option" where
  "getDrugBatchById st ident = map_of (drugBatches st) ident"

definition getDrugBatchByBatchId :: "MemStorage \<Rightarrow> string \<Rightarrow> DrugBatch option" where
  "getDrugBatchByBatchId st bid =
     find (\<lambda>batch. db_batchId batch = bid) (values_of (drugBatches st))"


definition createDrugBatch ::
  "string \<Rightarrow> int \<Rightarrow> InsertDrugBatch \<Rightarrow> MemStorage \<Rightarrow> DrugBatch \<times> MemStorage" where
  "createDrugBatch ident now ins st =
     (let drugBatch =
        \<lparr>db_id = ident, db_batchId = in_batchId ins, db_drugName = in_drugName ins,
         db_manufacturer = in_manufacturer ins,
         db_manufacturingDate = in_manufacturingDate ins,
         db_expiryDate = in_expiryDate ins, db_currentOwner = in_currentOwner ins,
         db_currentOwnerAddress = in_currentOwnerAddress ins,
         db_status = (case or_null (in_status ins) of None \<Rightarrow> ''manufactured'' | Some v \<Rightarrow> v),
         db_ipfsHash = in_ipfsHash ins, db_contractAddress = in_contractAddress ins,
         db_tokenId = in_tokenId ins, db_createdAt = now, db_updatedAt = now\<rparr>
      in (drugBatch, st\<lparr>drugBatches := AList.update ident drugBatch (drugBatches st)\<rparr>))"

text \<open>
  \<open>updateDrugBatch\<close>: the fields of \<open>updates\<close> are written over the stored record,
  which is the function \<open>updates\<close> here; \<open>None\<close> is the thrown error
  "Drug batch not found".
\<close>

definition updateDrugBatch ::
  "int \<Rightarrow> string \<Rightarrow> (DrugBatch \<Rightarrow> DrugBatch) \<Rightarrow> MemStorage \<Rightarrow> (DrugBatch \<times> MemStorage) option" where
  "updateDrugBatch now ident updates st =
     (case map_of (drugBatches st) ident of
        None \<Rightarrow> None
      | Some existing \<Rightarrow>
          let updated = (updates existing)\<lparr>db_updatedAt := now\<rparr>
          in Some (updated, st\<lparr>drugBatches := AList.update ident updated (drugBatches st)\<rparr>))"

definition createSupplyChainEvent ::
  "string \<Rightarrow> int \<Rightarrow> InsertSupplyChainEvent \<Rightarrow> MemStorage \<Rightarrow> SupplyChainEvent \<times> MemStorage" where
  "createSupplyChainEvent ident now ins st =
     (let event =
        \<lparr>se_id = ident, se_batchId = ie_batchId ins,
         se_fromOwner = or_null (ie_fromOwner ins), se_toOwner = ie_toOwner ins,
         se_fromOwnerAddress = or_null (ie_fromOwnerAddress ins),
         se_toOwnerAddress = ie_toOwnerAddress ins, se_eventType = ie_eventType ins,
         se_transactionHash = or_null (ie_transactionHash ins),
         se_blockNumber = (case ie_blockNumber ins of None \<Rightarrow> None
                           | Some n \<Rightarrow> if n = 0 then None else Some n),
         se_timestamp = now\<rparr>
      in (event, st\<lparr>supplyChainEvents := AList.update ident event (supplyChainEvents st)\<rparr>))"

text \<open>The events of a batch code, oldest first; the sort is stable.\<close>

definition getSupplyChainEventsByBatchId :: "MemStorage \<Rightarrow> string \<Rightarrow> SupplyChainEvent list" where
  "getSupplyChainEventsByBatchId st bid =
     sort_key se_timestamp
       (filter (\<lambda>event. se_batchId event = bid) (values_of (supplyChainEvents st)))"

definition getDashboardStats :: "MemStorage \<Rightarrow> DashboardStats" where
  "getDashboardStats st =
     \<lparr>totalBatches = length (drugBatches st),
      activeTransfers =
        length (filter (\<lambda>batch. db_status batch = ''in_transit'') (values_of (drugBatches st))),
      verifiedDrugs =
        length (filter (\<lambda>batch. db_status batch \<noteq> ''expired'') (values_of (drugBatches st))),
      gasUsed = ''0.0234''\<rparr>"

subsection \<open>The routes that write\<close>

text \<open>
  \<open>POST /api/drug-batches\<close> and \<open>POST /api/drug-batches/transfer\<close>: the body's
  fields, the answer, and the handlers. \<open>batchKey\<close> and \<open>eventId\<close> are the random ids
  of the batch and of the event a handler creates. The first handler receives the
  body after the schema has accepted it.
\<close>

record TransferBody =
  body_batchId :: "string option"
  body_newOwner :: "string option"
  body_newOwnerAddress :: "string option"
  body_eventType :: "string option"
  body_transactionHash :: "string option"

datatype response =
    Status400 | Status404 | Status500
  | Status200 DrugBatch SupplyChainEvent
  | Status201 DrugBatch SupplyChainEvent

definition createRoute ::
  "string \<Rightarrow> string \<Rightarrow> int \<Rightarrow> InsertDrugBatch \<Rightarrow> MemStorage \<Rightarrow> response \<times> MemStorage" where
  "createRoute batchKey eventId now validatedData st =
     (let (drugBatch, st1) = createDrugBatch batchKey now validatedData st;
          (manufacturingEvent, st2) = createSupplyChainEvent eventId now
             \<lparr>ie_batchId = db_batchId drugBatch, ie_fromOwner = None,
              ie_toOwner = db_currentOwner drugBatch, ie_fromOwnerAddress = None,
              ie_toOwnerAddress = db_currentOwnerAddress drugBatch,
              ie_eventType = ''manufacture'', ie_transactionHash = None,
              ie_blockNumber = None\<rparr> st1
      in (Status201 drugBatch manufacturingEvent, st2))"

definition transferRoute ::
  "string \<Rightarrow> int \<Rightarrow> TransferBody \<Rightarrow> MemStorage \<Rightarrow> response \<times> MemStorage" where
  "transferRoute eventId now body st =
     (case (body_batchId body, body_newOwner body, body_newOwnerAddress body,
            body_eventType body) of
        (Some bid, Some newOwner, Some newOwnerAddress, Some etype) \<Rightarrow>
          if bid = [] \<or> newOwner = [] \<or> newOwnerAddress = [] \<or> etype = []
          then (Status400, st)
          else
            (case getDrugBatchByBatchId st bid of
               None \<Rightarrow> (Status404, st)
             | Some currentDrug \<Rightarrow>
                 (case updateDrugBatch now (db_id currentDrug)
                         (\<lambda>b. b\<lparr>db_currentOwner := newOwner,
                                 db_currentOwnerAddress := newOwnerAddress,
                                 db_status := (if etype = ''deliver'' then ''delivered''
                                               else ''in_transit''),
                                 db_updatedAt := now\<rparr>) st of
                    None \<Rightarrow> (Status500, st)
                  | Some (updatedDrug, st1) \<Rightarrow>
                      let (event, st2) = createSupplyChainEvent eventId now
                            \<lparr>ie_batchId = bid,
                             ie_fromOwner = Some (db_currentOwner currentDrug),
                             ie_toOwner = newOwner,
                             ie_fromOwnerAddress = Some (db_currentOwnerAddress currentDrug),
                             ie_toOwnerAddress = newOwnerAddress, ie_eventType = etype,
                             ie_transactionHash = body_transactionHash body,
                             ie_blockNumber = None\<rparr> st1
                      in (Status200 updatedDrug event, st2)))
      | _ \<Rightarrow> (Status400, st))"

text \<open>
  The storage after a sequence of write requests, each at its time.
\<close>

datatype request =
    PostDrugBatch string string InsertDrugBatch
  | PostTransfer string TransferBody

fun handle :: "int \<Rightarrow> request \<Rightarrow> MemStorage \<Rightarrow> response \<times> MemStorage" where
  "handle now (PostDrugBatch batchKey eventId validatedData) st =
     createRoute batchKey eventId now validatedData st"
| "handle now (PostTransfer eventId body) st = transferRoute eventId now body st"

fun serve :: "(int \<times> request) list \<Rightarrow> MemStorage \<Rightarrow> MemStorage" where
  "serve [] st = st"
| "serve ((now, r) # rs) st = serve rs (snd (handle now r st))"

text \<open>The ids under which the requests of a sequence create batches.\<close>

fun created_ids :: "(int \<times> request) list \<Rightarrow> string set" where
  "created_ids [] = {}"
| "created_ids ((now, PostDrugBatch batchKey eventId validatedData) # rs) =
     insert batchKey (created_ids rs)"
| "created_ids ((now, PostTransfer eventId body) # rs) = created_ids rs"

text \<open>
  Every stored batch is stored under its own id, and no id is stored twice.
\<close>

definition store_ok :: "MemStorage \<Rightarrow> bool" where
  "store_ok st \<longleftrightarrow>
     distinct (map fst (drugBatches st)) \<and>
     list_all (\<lambda>(k, b). db_id b = k) (drugBatches st)"





section \<open>Properties of the contract\<close>

subsection \<open>The owner enumeration\<close>

lemma swap_remove_split:
  assumes "t \<notin> set as"
  shows "butlast (if length (takeWhile (\<lambda>x. x \<noteq> t) (as @ t # bs)) \<noteq> length (as @ t # bs) - 1
            then (as @ t # bs)[length (takeWhile (\<lambda>x. x \<noteq> t) (as @ t # bs)) := (as @ t # bs) ! (length (as @ t # bs) - 1)]
            else as @ t # bs)
         = (if bs = [] then as else as @ last bs # butlast bs)"
proof -
  have tw: "takeWhile (\<lambda>x. x \<noteq> t) (as @ t # bs) = as"
    using assms by (induction as) auto
  show ?thesis
  proof (cases bs rule: rev_cases)
    case Nil
    then show ?thesis using tw by simp
  next
    case (snoc cs l)
    have n: "(as @ t # cs @ [l]) ! (length as + length cs + 1) = l"
      by (simp add: nth_append)
    show ?thesis using tw snoc n
      by (simp add: butlast_append)
  qed
qed

lemma swap_remove_set:
  assumes "distinct xs" "t \<in> set xs"
  defines "ys \<equiv> butlast (if length (takeWhile (\<lambda>x. x \<noteq> t) xs) \<noteq> length xs - 1
            then xs[length (takeWhile (\<lambda>x. x \<noteq> t) xs) := xs ! (length xs - 1)]
            else xs)"
  shows "distinct ys \<and> set ys = set xs - {t}"
proof -
  from assms(2) obtain as bs where xs: "xs = as @ t # bs" and nin: "t \<notin> set as"
    by (auto dest: split_list_first)
  have ys: "ys = (if bs = [] then as else as @ last bs # butlast bs)"
    unfolding ys_def xs by (rule swap_remove_split [OF nin])
  show ?thesis
  proof (cases bs rule: rev_cases)
    case Nil
    then show ?thesis using assms(1) xs nin ys by auto
  next
    case (snoc cs l)
    then show ?thesis using assms(1) xs nin ys by auto
  qed
qed

lemma safeMint_Inr:
  "safeMint s to t = Inr s' \<longleftrightarrow>
     to \<noteq> 0 \<and> owners s t = 0 \<and>
     s' = s\<lparr>ownedTokens := (ownedTokens s)(to := ownedTokens s to @ [t]),
            owners := (owners s)(t := to)\<rparr>"
  by (auto simp: safeMint_def exists_token_def addTokenToOwnerEnumeration_def Let_def)

lemma transfer_token_Inr:
  assumes "owners s t = frm" "frm \<noteq> 0" "to \<noteq> 0" "to \<noteq> frm" "ownedTokens s frm \<noteq> []"
  shows "transfer_token s frm to t =
     Inr (s\<lparr>ownedTokens := (ownedTokens s)(frm := swap_pop (ownedTokens s frm) t,
                to := ownedTokens s to @ [t]),
            owners := (owners s)(t := to),
            tokenApprovals := (tokenApprovals s)(t := 0)\<rparr>)"
  using assms
  by (auto simp: transfer_token_def ownerOf_def removeTokenFromOwnerEnumeration_def
      addTokenToOwnerEnumeration_def ownedTokensIndex_def swap_pop_def Let_def)

lemma transfer_token_Panic:
  assumes "owners s t = frm" "frm \<noteq> 0" "to \<noteq> 0" "to \<noteq> frm" "ownedTokens s frm = []"
  shows "transfer_token s frm to t = Inl Panic"
  using assms
  by (auto simp: transfer_token_def ownerOf_def removeTokenFromOwnerEnumeration_def Let_def)

lemma registerDrug_Inr:
  "registerDrug sender now bid dname manu expiry ipfs s = Inr (tid, s') \<longleftrightarrow>
     bid \<noteq> [] \<and> dname \<noteq> [] \<and> manu \<noteq> [] \<and> now < expiry \<and> batchIdToTokenId s bid = 0 \<and>
     sender \<noteq> 0 \<and> tid = tokenIdCounter s + 1 \<and> owners s tid = 0 \<and>
     s' = s\<lparr>tokenIdCounter := tid,
            ownedTokens := (ownedTokens s)(sender := ownedTokens s sender @ [tid]),
            owners := (owners s)(tid := sender),
            drugs := (drugs s)(tid :=
               \<lparr>batchId = bid, drugName = dname, manufacturer = manu,
                expiryDate = expiry, ipfsHash = ipfs, currentOwner = sender,
                timestamp = now, isActive = True\<rparr>),
            batchIdToTokenId := (batchIdToTokenId s)(bid := tid),
            drugHistory := (drugHistory s)(tid := drugHistory s tid @
               [\<lparr>ev_from = 0, ev_to = sender, ev_timestamp = now,
                 eventType = ''manufacture''\<rparr>]),
            logs := logs s @ [DrugRegistered tid bid sender dname manu]\<rparr>"
  by (auto simp: registerDrug_def safeMint_def exists_token_def
      addTokenToOwnerEnumeration_def Let_def split: sum.splits)

lemma transferOwnership_Inr:
  assumes "enum_ok s"
  shows "transferOwnership sender now t to etype s = Inr s' \<longleftrightarrow>
     owners s t = sender \<and> sender \<noteq> 0 \<and> to \<noteq> 0 \<and> to \<noteq> sender \<and>
     isActive (drugs s t) \<and> now < expiryDate (drugs s t) \<and>
     s' = s\<lparr>ownedTokens := (ownedTokens s)(sender := swap_pop (ownedTokens s sender) t,
                to := ownedTokens s to @ [t]),
            owners := (owners s)(t := to),
            tokenApprovals := (tokenApprovals s)(t := 0),
            drugs := (drugs s)(t := (drugs s t)\<lparr>currentOwner := to\<rparr>),
            drugHistory := (drugHistory s)(t := drugHistory s t @
               [\<lparr>ev_from = sender, ev_to = to, ev_timestamp = now, eventType = etype\<rparr>]),
            logs := logs s @ [OwnershipTransferred t sender to etype]\<rparr>"
proof (cases "owners s t = sender \<and> sender \<noteq> 0 \<and> to \<noteq> 0 \<and> to \<noteq> sender")
  case True
  then have "t \<in> set (ownedTokens s sender)" using assms by (simp add: enum_ok_def)
  then have ne: "ownedTokens s sender \<noteq> []" by auto
  show ?thesis
    using True transfer_token_Inr [of s t sender to, OF _ _ _ _ ne]
    by (auto simp: transferOwnership_def ownerOf_def)
next
  case False
  then show ?thesis
    by (auto simp: transferOwnership_def ownerOf_def split: sum.splits)
qed


lemma swap_pop_set:
  "distinct xs \<Longrightarrow> t \<in> set xs \<Longrightarrow> distinct (swap_pop xs t) \<and> set (swap_pop xs t) = set xs - {t}"
  unfolding swap_pop_def by (rule swap_remove_set)

lemma enum_ok_constructor: "enum_ok (constructor d)"
  by (simp add: enum_ok_def constructor_def)

lemma history_ok_constructor: "history_ok (constructor d)"
  by (simp add: history_ok_def constructor_def)


lemma registerDrug_fields:
  assumes "registerDrug sender now bid dname manu expiry ipfs s = Inr (tid, s')"
  shows "sender \<noteq> 0" and "owners s tid = 0" and "tid = tokenIdCounter s + 1"
    and "tokenIdCounter s' = tid"
    and "ownedTokens s' = (ownedTokens s)(sender := ownedTokens s sender @ [tid])"
    and "owners s' = (owners s)(tid := sender)"
    and "drugs s' = (drugs s)(tid :=
               \<lparr>batchId = bid, drugName = dname, manufacturer = manu,
                expiryDate = expiry, ipfsHash = ipfs, currentOwner = sender,
                timestamp = now, isActive = True\<rparr>)"
    and "batchIdToTokenId s' = (batchIdToTokenId s)(bid := tid)"
    and "drugHistory s' = (drugHistory s)(tid := drugHistory s tid @
               [\<lparr>ev_from = 0, ev_to = sender, ev_timestamp = now,
                 eventType = ''manufacture''\<rparr>])"
    and "logs s' = logs s @ [DrugRegistered tid bid sender dname manu]"
    and "userRoles s' = userRoles s" and "contractOwner s' = contractOwner s"
proof -
  note r = assms [unfolded registerDrug_Inr]
  from r show "sender \<noteq> 0" and "owners s tid = 0" and "tid = tokenIdCounter s + 1"
    by blast+
  from r have s': "s' = s\<lparr>tokenIdCounter := tid,
            ownedTokens := (ownedTokens s)(sender := ownedTokens s sender @ [tid]),
            owners := (owners s)(tid := sender),
            drugs := (drugs s)(tid :=
               \<lparr>batchId = bid, drugName = dname, manufacturer = manu,
                expiryDate = expiry, ipfsHash = ipfs, currentOwner = sender,
                timestamp = now, isActive = True\<rparr>),
            batchIdToTokenId := (batchIdToTokenId s)(bid := tid),
            drugHistory := (drugHistory s)(tid := drugHistory s tid @
               [\<lparr>ev_from = 0, ev_to = sender, ev_timestamp = now,
                 eventType = ''manufacture''\<rparr>]),
            logs := logs s @ [DrugRegistered tid bid sender dname manu]\<rparr>"
    by blast
  show "tokenIdCounter s' = tid" by (simp add: s')
  show "ownedTokens s' = (ownedTokens s)(sender := ownedTokens s sender @ [tid])"
    by (simp add: s')
  show "owners s' = (owners s)(tid := sender)" by (simp add: s')
  show "drugs s' = (drugs s)(tid :=
               \<lparr>batchId = bid, drugName = dname, manufacturer = manu,
                expiryDate = expiry, ipfsHash = ipfs, currentOwner = sender,
                timestamp = now, isActive = True\<rparr>)" by (simp add: s')
  show "batchIdToTokenId s' = (batchIdToTokenId s)(bid := tid)" by (simp add: s')
  show "drugHistory s' = (drugHistory s)(tid := drugHistory s tid @
               [\<lparr>ev_from = 0, ev_to = sender, ev_timestamp = now,
                 eventType = ''manufacture''\<rparr>])" by (simp add: s')
  show "logs s' = logs s @ [DrugRegistered tid bid sender dname manu]" by (simp add: s')
  show "userRoles s' = userRoles s" by (simp add: s')
  show "contractOwner s' = contractOwner s" by (simp add: s')
qed

lemma transferOwnership_fields:
  assumes "enum_ok s" "transferOwnership sender now t to etype s = Inr s'"
  shows "owners s t = sender" and "sender \<noteq> 0" and "to \<noteq> 0" and "to \<noteq> sender"
    and "isActive (drugs s t)" and "now < expiryDate (drugs s t)"
    and "tokenIdCounter s' = tokenIdCounter s"
    and "ownedTokens s' = (ownedTokens s)(sender := swap_pop (ownedTokens s sender) t,
                to := ownedTokens s to @ [t])"
    and "owners s' = (owners s)(t := to)"
    and "drugs s' = (drugs s)(t := (drugs s t)\<lparr>currentOwner := to\<rparr>)"
    and "batchIdToTokenId s' = batchIdToTokenId s"
    and "drugHistory s' = (drugHistory s)(t := drugHistory s t @
               [\<lparr>ev_from = sender, ev_to = to, ev_timestamp = now, eventType = etype\<rparr>])"
    and "logs s' = logs s @ [OwnershipTransferred t sender to etype]"
    and "userRoles s' = userRoles s" and "contractOwner s' = contractOwner s"
proof -
  note r = assms(2) [unfolded transferOwnership_Inr [OF assms(1)]]
  from r show "owners s t = sender" and "sender \<noteq> 0" and "to \<noteq> 0" and "to \<noteq> sender"
    and "isActive (drugs s t)" and "now < expiryDate (drugs s t)"
    by blast+
  from r have s': "s' = s\<lparr>ownedTokens := (ownedTokens s)(sender := swap_pop (ownedTokens s sender) t,
                to := ownedTokens s to @ [t]),
            owners := (owners s)(t := to),
            tokenApprovals := (tokenApprovals s)(t := 0),
            drugs := (drugs s)(t := (drugs s t)\<lparr>currentOwner := to\<rparr>),
            drugHistory := (drugHistory s)(t := drugHistory s t @
               [\<lparr>ev_from = sender, ev_to = to, ev_timestamp = now, eventType = etype\<rparr>]),
            logs := logs s @ [OwnershipTransferred t sender to etype]\<rparr>"
    by blast
  show "tokenIdCounter s' = tokenIdCounter s" by (simp add: s')
  show "ownedTokens s' = (ownedTokens s)(sender := swap_pop (ownedTokens s sender) t,
                to := ownedTokens s to @ [t])" by (simp add: s')
  show "owners s' = (owners s)(t := to)" by (simp add: s')
  show "drugs s' = (drugs s)(t := (drugs s t)\<lparr>currentOwner := to\<rparr>)" by (simp add: s')
  show "batchIdToTokenId s' = batchIdToTokenId s" by (simp add: s')
  show "drugHistory s' = (drugHistory s)(t := drugHistory s t @
               [\<lparr>ev_from = sender, ev_to = to, ev_timestamp = now, eventType = etype\<rparr>])"
    by (simp add: s')
  show "logs s' = logs s @ [OwnershipTransferred t sender to etype]" by (simp add: s')
  show "userRoles s' = userRoles s" by (simp add: s')
  show "contractOwner s' = contractOwner s" by (simp add: s')
qed

lemma enum_ok_registerDrug:
  assumes "enum_ok s" "registerDrug sender now bid dname manu expiry ipfs s = Inr (tid, s')"
  shows "enum_ok s'"
proof -
  note f = registerDrug_fields [OF assms(2)]
  have nin: "\<And>owner. tid \<notin> set (ownedTokens s owner)"
    using assms(1) f(2) by (auto simp: enum_ok_def)
  show ?thesis
    using assms(1) nin f(1) unfolding enum_ok_def f(5,6) by auto
qed

lemma enum_ok_transferOwnership:
  assumes "enum_ok s" "transferOwnership sender now t to etype s = Inr s'"
  shows "enum_ok s'"
proof -
  note f = transferOwnership_fields [OF assms]
  have tin: "t \<in> set (ownedTokens s sender)" and d: "distinct (ownedTokens s sender)"
    using assms(1) f(1,2) by (auto simp: enum_ok_def)
  note sp = swap_pop_set [OF d tin]
  have nin: "t \<notin> set (ownedTokens s to)"
    using assms(1) f(1,4) by (auto simp: enum_ok_def)
  show ?thesis
    using assms(1) f(1-4) sp nin unfolding enum_ok_def f(8,9) by auto
qed

lemma history_ok_registerDrug:
  assumes "history_ok s" "registerDrug sender now bid dname manu expiry ipfs s = Inr (tid, s')"
  shows "history_ok s'"
proof -
  note f = registerDrug_fields [OF assms(2)]
  have e: "drugHistory s tid = []" using assms(1) f(2) by (simp add: history_ok_def)
  show ?thesis
    using assms(1) e f(1,2) unfolding history_ok_def f(6,7,9) by auto
qed

lemma history_ok_transferOwnership:
  assumes "enum_ok s" "history_ok s" "transferOwnership sender now t to etype s = Inr s'"
  shows "history_ok s'"
proof -
  note f = transferOwnership_fields [OF assms(1,3)]
  have h: "drugHistory s t \<noteq> []" "ev_from (hd (drugHistory s t)) = 0"
    "eventType (hd (drugHistory s t)) = ''manufacture''"
    "\<forall>e \<in> set (tl (drugHistory s t)). ev_from e \<noteq> 0"
    using assms(2) f(1,2) by (auto simp: history_ok_def)
  show ?thesis
    using assms(2) h f(1-4) unfolding history_ok_def f(9,10,12) by auto
qed

lemma deactivateDrug_Inr:
  "deactivateDrug sender t s = Inr s' \<longleftrightarrow>
     owners s t = sender \<and> sender \<noteq> 0 \<and>
     s' = s\<lparr>drugs := (drugs s)(t := (drugs s t)\<lparr>isActive := False\<rparr>)\<rparr>"
  by (auto simp: deactivateDrug_def ownerOf_def)

lemma assignRole_Inr:
  "assignRole sender user role s = Inr s' \<longleftrightarrow>
     contractOwner s = sender \<and>
     s' = s\<lparr>userRoles := (userRoles s)(user := role),
            logs := logs s @ [RoleAssigned user role]\<rparr>"
  by (auto simp: assignRole_def)

lemma transfer_token_frame:
  assumes "enum_ok s" "transfer_token s frm to t = Inr s'"
  shows "enum_ok s'" and "owners s t = frm" and "frm \<noteq> 0" and "to \<noteq> 0"
    and "owners s' = (owners s)(t := to)"
    and "drugs s' = drugs s" and "drugHistory s' = drugHistory s"
    and "batchIdToTokenId s' = batchIdToTokenId s" and "userRoles s' = userRoles s"
    and "tokenIdCounter s' = tokenIdCounter s" and "logs s' = logs s"
    and "contractOwner s' = contractOwner s"
proof -
  from assms(2) have o: "owners s t = frm" "frm \<noteq> 0" "to \<noteq> 0"
    by (auto simp: transfer_token_def ownerOf_def split: if_splits)
  then show "owners s t = frm" and "frm \<noteq> 0" and "to \<noteq> 0" by blast+
  have tin: "t \<in> set (ownedTokens s frm)" and d: "distinct (ownedTokens s frm)"
    using assms(1) o by (auto simp: enum_ok_def)
  then have ne: "ownedTokens s frm \<noteq> []" by auto
  have s': "s' = (if frm = to then s\<lparr>tokenApprovals := (tokenApprovals s)(t := 0)\<rparr>
      else s\<lparr>ownedTokens := (ownedTokens s)(frm := swap_pop (ownedTokens s frm) t,
                to := ownedTokens s to @ [t]),
            owners := (owners s)(t := to),
            tokenApprovals := (tokenApprovals s)(t := 0)\<rparr>)"
  proof (cases "frm = to")
    case True
    with assms(2) o show ?thesis by (simp add: transfer_token_def ownerOf_def)
  next
    case False
    then have "to \<noteq> frm" by simp
    from transfer_token_Inr [OF o(1,2,3) this ne] assms(2) False show ?thesis by simp
  qed
  show "owners s' = (owners s)(t := to)" using o by (auto simp: s')
  show "drugs s' = drugs s" by (simp add: s')
  show "drugHistory s' = drugHistory s" by (simp add: s')
  show "batchIdToTokenId s' = batchIdToTokenId s" by (simp add: s')
  show "userRoles s' = userRoles s" by (simp add: s')
  show "tokenIdCounter s' = tokenIdCounter s" by (simp add: s')
  show "logs s' = logs s" by (simp add: s')
  show "contractOwner s' = contractOwner s" by (simp add: s')
  show "enum_ok s'"
  proof (cases "frm = to")
    case True
    then show ?thesis using assms(1) by (simp add: s' enum_ok_def)
  next
    case False
    note sp = swap_pop_set [OF d tin]
    have nin: "t \<notin> set (ownedTokens s to)"
      using assms(1) o False by (auto simp: enum_ok_def)
    have ot: "ownedTokens s' = (ownedTokens s)(frm := swap_pop (ownedTokens s frm) t,
                to := ownedTokens s to @ [t])"
      and ow: "owners s' = (owners s)(t := to)"
      using False by (simp_all add: s')
    show ?thesis
      using assms(1) o False sp nin unfolding enum_ok_def ot ow by auto
  qed
qed

lemma exec_elims:
  assumes "exec sender now c s = Inr (r, s')"
  obtains (register) bid dname manu expiry ipfs tid where
      "c = RegisterDrug bid dname manu expiry ipfs"
      "registerDrug sender now bid dname manu expiry ipfs s = Inr (tid, s')"
      "r = RetUint tid"
  | (transfer) t to etype where
      "c = TransferOwnership t to etype"
      "transferOwnership sender now t to etype s = Inr s'" "r = RetNone"
  | (deactivate) t where
      "c = DeactivateDrug t" "deactivateDrug sender t s = Inr s'" "r = RetNone"
  | (assign) user role where
      "c = AssignRole user role" "assignRole sender user role s = Inr s'" "r = RetNone"
  | (inherited) "\<not> own_function c"
  using assms by (cases c) (auto split: sum.splits)

text \<open>
  The inherited entry points write only the token library's and Ownable's storage.
\<close>

lemma inherited_exec:
  assumes "\<not> own_function c" "enum_ok s" "exec sender now c s = Inr (r, s')"
  shows "enum_ok s'" and "drugs s' = drugs s" and "drugHistory s' = drugHistory s"
    and "batchIdToTokenId s' = batchIdToTokenId s" and "userRoles s' = userRoles s"
    and "tokenIdCounter s' = tokenIdCounter s" and "logs s' = logs s"
    and "owners s' t = 0 \<longleftrightarrow> owners s t = 0" and "r = RetNone"
proof -
  have all: "enum_ok s' \<and> drugs s' = drugs s \<and> drugHistory s' = drugHistory s \<and>
      batchIdToTokenId s' = batchIdToTokenId s \<and> userRoles s' = userRoles s \<and>
      tokenIdCounter s' = tokenIdCounter s \<and> logs s' = logs s \<and>
      (owners s' t = 0 \<longleftrightarrow> owners s t = 0) \<and> r = RetNone"
  proof (cases c)
    case (TransferFrom frm to tokenId)
    with assms(3) have "transfer_token s frm to tokenId = Inr s'" and r: "r = RetNone"
      by (auto simp: transferFrom_def split: sum.splits if_splits)
    note f = transfer_token_frame [OF assms(2) this(1)]
    show ?thesis using f r by auto
  next
    case (SafeTransferFrom frm to tokenId)
    with assms(3) have "transfer_token s frm to tokenId = Inr s'" and r: "r = RetNone"
      by (auto simp: safeTransferFrom_def transferFrom_def split: sum.splits if_splits)
    note f = transfer_token_frame [OF assms(2) this(1)]
    show ?thesis using f r by auto
  next
    case (Approve to tokenId)
    with assms(3) have "s' = s\<lparr>tokenApprovals := (tokenApprovals s)(tokenId := to)\<rparr>"
      and r: "r = RetNone"
      by (auto simp: approve_def split: sum.splits if_splits)
    then show ?thesis using assms(2) by (simp add: enum_ok_def)
  next
    case (SetApprovalForAll operator approved)
    with assms(3) have "s' = s\<lparr>operatorApprovals :=
        (operatorApprovals s)(sender := (operatorApprovals s sender)(operator := approved))\<rparr>"
      and r: "r = RetNone"
      by (auto simp: setApprovalForAll_def split: sum.splits if_splits)
    then show ?thesis using assms(2) by (simp add: enum_ok_def)
  next
    case (TransferContractOwnership newOwner)
    with assms(3) have "s' = s\<lparr>contractOwner := newOwner\<rparr>" and r: "r = RetNone"
      by (auto simp: transferContractOwnership_def split: sum.splits if_splits)
    then show ?thesis using assms(2) by (simp add: enum_ok_def)
  next
    case RenounceOwnership
    with assms(3) have "s' = s\<lparr>contractOwner := 0\<rparr>" and r: "r = RetNone"
      by (auto simp: renounceOwnership_def split: sum.splits if_splits)
    then show ?thesis using assms(2) by (simp add: enum_ok_def)
  qed (use assms(1) in simp_all)
  then show "enum_ok s'" and "drugs s' = drugs s" and "drugHistory s' = drugHistory s"
    and "batchIdToTokenId s' = batchIdToTokenId s" and "userRoles s' = userRoles s"
    and "tokenIdCounter s' = tokenIdCounter s" and "logs s' = logs s"
    and "owners s' t = 0 \<longleftrightarrow> owners s t = 0" and "r = RetNone"
    by blast+
qed

lemma state_ok_exec:
  assumes "state_ok s" "exec sender now c s = Inr (r, s')"
  shows "state_ok s'"
  using assms(2)
proof (cases rule: exec_elims)
  case (register bid dname manu expiry ipfs tid)
  then show ?thesis
    using assms(1) enum_ok_registerDrug history_ok_registerDrug
    unfolding state_ok_def by blast
next
  case (transfer t to etype)
  then show ?thesis
    using assms(1) enum_ok_transferOwnership history_ok_transferOwnership
    unfolding state_ok_def by blast
next
  case (deactivate t)
  then have s': "s' = s\<lparr>drugs := (drugs s)(t := (drugs s t)\<lparr>isActive := False\<rparr>)\<rparr>"
    by (simp add: deactivateDrug_Inr)
  have "enum_ok s'" using assms(1) by (simp add: state_ok_def enum_ok_def s')
  moreover have "history_ok s'" using assms(1) by (simp add: state_ok_def history_ok_def s')
  ultimately show ?thesis by (simp add: state_ok_def)
next
  case (assign user role)
  then have s': "s' = s\<lparr>userRoles := (userRoles s)(user := role),
            logs := logs s @ [RoleAssigned user role]\<rparr>"
    by (simp add: assignRole_Inr)
  have "enum_ok s'" using assms(1) by (simp add: state_ok_def enum_ok_def s')
  moreover have "history_ok s'" using assms(1) by (simp add: state_ok_def history_ok_def s')
  ultimately show ?thesis by (simp add: state_ok_def)
next
  case inherited
  from assms(1) have e: "enum_ok s" and h: "history_ok s" by (simp_all add: state_ok_def)
  note f = inherited_exec [OF inherited e assms(2)]
  have "history_ok s'"
    using h f(8) unfolding history_ok_def f(2,3) by simp
  with f(1) show ?thesis by (simp add: state_ok_def)
qed

lemma state_ok_transact: "state_ok s \<Longrightarrow> state_ok (transact sender now c s)"
  using state_ok_exec [of s sender now c]
  by (auto simp: transact_def split: sum.splits)

lemma state_ok_run: "state_ok s \<Longrightarrow> state_ok (run tr s)"
  by (induction tr s rule: run.induct) (auto simp: state_ok_transact)

lemma state_ok_reachable: "state_ok (run tr (constructor d))"
  by (rule state_ok_run) (simp add: state_ok_def enum_ok_constructor history_ok_constructor)

lemma transact_cases:
  "transact sender now c s = s \<or> (\<exists>r s'. exec sender now c s = Inr (r, s') \<and> transact sender now c s = s')"
  by (auto simp: transact_def split: sum.splits)

text \<open>
  The contract's own functions keep the record's owner equal to the token's owner.
\<close>

lemma owner_sync_exec:
  assumes "state_ok s" "owner_sync s" "own_function c" "exec sender now c s = Inr (r, s')"
  shows "owner_sync s'"
  using assms(4)
proof (cases rule: exec_elims)
  case (register bid dname manu expiry ipfs tid)
  note f = registerDrug_fields [OF register(2)]
  show ?thesis using assms(2) f(1,2) unfolding owner_sync_def f(6,7) by auto
next
  case (transfer t to etype)
  from assms(1) have "enum_ok s" by (simp add: state_ok_def)
  note f = transferOwnership_fields [OF this transfer(2)]
  show ?thesis using assms(2) f(3) unfolding owner_sync_def f(9,10) by auto
next
  case (deactivate t)
  then have "s' = s\<lparr>drugs := (drugs s)(t := (drugs s t)\<lparr>isActive := False\<rparr>)\<rparr>"
    by (simp add: deactivateDrug_Inr)
  then show ?thesis using assms(2) by (simp add: owner_sync_def)
next
  case (assign user role)
  then have "s' = s\<lparr>userRoles := (userRoles s)(user := role),
            logs := logs s @ [RoleAssigned user role]\<rparr>"
    by (simp add: assignRole_Inr)
  then show ?thesis using assms(2) by (simp add: owner_sync_def)
next
  case inherited
  with assms(3) show ?thesis by simp
qed

lemma owner_sync_run:
  "state_ok s \<Longrightarrow> owner_sync s \<Longrightarrow> \<forall>x \<in> set tr. own_function (snd (snd x)) \<Longrightarrow>
     owner_sync (run tr s)"
proof (induction tr s rule: run.induct)
  case (1 s)
  then show ?case by simp
next
  case (2 sender now c cs s)
  have ok: "state_ok (transact sender now c s)"
    using "2.prems"(1) by (rule state_ok_transact)
  from "2.prems"(3) have own: "own_function c" by simp
  have sy: "owner_sync (transact sender now c s)"
    using transact_cases [of sender now c s] "2.prems"(2)
      owner_sync_exec [OF "2.prems"(1,2) own]
    by metis
  from "2.prems"(3) have "\<forall>x \<in> set cs. own_function (snd (snd x))" by simp
  from "2.IH" [OF ok sy this] show ?case by simp
qed

subsection \<open>The history of a batch\<close>



lemmas eval_defs =
  transact_def registerDrug_def transferOwnership_def deactivateDrug_def assignRole_def
  transferFrom_def isApprovedOrOwner_def transferContractOwnership_def
  safeMint_def transfer_token_def removeTokenFromOwnerEnumeration_def
  addTokenToOwnerEnumeration_def ownedTokensIndex_def ownerOf_def exists_token_def
  constructor_def Let_def



text \<open>
  C4. In every state the contract reaches, the owner recorded for a batch that
  exists is the recipient of the last entry of the batch's history. When the state
  was reached by calls of \<open>registerDrug\<close>, \<open>transferOwnership\<close>, \<open>deactivateDrug\<close> and
  \<open>assignRole\<close> alone, that recipient is also the owner of the batch's token.
\<close>

theorem owner_is_last_recipient:
  assumes "s = run tr (constructor d)" and "exists_token s t"
  shows "\<exists>drug h. verifyDrug s t = Inr drug \<and> getDrugHistory s t = Inr h \<and> h \<noteq> [] \<and>
           currentOwner drug = ev_to (last h) \<and>
           ((\<forall>x \<in> set tr. own_function (snd (snd x))) \<longrightarrow>
              ownerOf s t = Inr (ev_to (last h)))"
proof -
  have ok: "state_ok s" unfolding assms(1) by (rule state_ok_reachable)
  then have h: "history_ok s" by (simp add: state_ok_def)
  from assms(2) have ex: "owners s t \<noteq> 0" by (simp add: exists_token_def)
  with h have hs: "drugHistory s t \<noteq> []"
    "currentOwner (drugs s t) = ev_to (last (drugHistory s t))"
    by (auto simp: history_ok_def)
  have sy: "ownerOf s t = Inr (ev_to (last (drugHistory s t)))"
    if own: "\<forall>x \<in> set tr. own_function (snd (snd x))"
  proof -
    have "state_ok (constructor d)"
      by (simp add: state_ok_def enum_ok_constructor history_ok_constructor)
    moreover have "owner_sync (constructor d)" by (simp add: owner_sync_def constructor_def)
    ultimately have "owner_sync s" unfolding assms(1) using own by (rule owner_sync_run)
    with ex hs(2) show ?thesis by (simp add: owner_sync_def ownerOf_def)
  qed
  show ?thesis
    using assms(2) hs sy by (simp add: verifyDrug_def getDrugHistory_def)
qed

theorem owner_is_last_recipient_witness:
  "exists_token (run [(1, 100, RegisterDrug ''B1'' ''Drug'' ''Maker'' 200 ''Qm''),
       (1, 110, TransferOwnership 1 2 ''transfer'')] (constructor 1)) 1 \<and>
   (\<exists>drug h. verifyDrug (run [(1, 100, RegisterDrug ''B1'' ''Drug'' ''Maker'' 200 ''Qm''),
       (1, 110, TransferOwnership 1 2 ''transfer'')] (constructor 1)) 1 = Inr drug \<and>
     getDrugHistory (run [(1, 100, RegisterDrug ''B1'' ''Drug'' ''Maker'' 200 ''Qm''),
       (1, 110, TransferOwnership 1 2 ''transfer'')] (constructor 1)) 1 = Inr h \<and>
     currentOwner drug = ev_to (last h) \<and>
     ownerOf (run [(1, 100, RegisterDrug ''B1'' ''Drug'' ''Maker'' 200 ''Qm''),
       (1, 110, TransferOwnership 1 2 ''transfer'')] (constructor 1)) 1 = Inr (ev_to (last h)))"
proof -
  let ?tr = "[(1, 100, RegisterDrug ''B1'' ''Drug'' ''Maker'' 200 ''Qm''),
       (1, 110, TransferOwnership 1 2 ''transfer'')] :: (address \<times> uint256 \<times> call) list"
  have ex: "exists_token (run ?tr (constructor 1)) 1"
    by (simp add: eval_defs)
  have own: "\<forall>x \<in> set ?tr. own_function (snd (snd x))" by simp
  from owner_is_last_recipient [OF refl ex] own
  have "\<exists>drug h. verifyDrug (run ?tr (constructor 1)) 1 = Inr drug \<and>
     getDrugHistory (run ?tr (constructor 1)) 1 = Inr h \<and>
     currentOwner drug = ev_to (last h) \<and>
     ownerOf (run ?tr (constructor 1)) 1 = Inr (ev_to (last h))"
    by blast
  with ex show ?thesis by (intro conjI)
qed

subsection \<open>The role directory\<close>

lemma roles_exec:
  assumes "state_ok s" "exec sender now c s = Inr (r, s')"
    and "\<forall>role. c \<noteq> AssignRole u role"
  shows "userRoles s' u = userRoles s u"
  using assms(2)
proof (cases rule: exec_elims)
  case (register bid dname manu expiry ipfs tid)
  note f = registerDrug_fields [OF register(2)]
  show ?thesis by (simp add: f(11))
next
  case (transfer t to etype)
  from assms(1) have "enum_ok s" by (simp add: state_ok_def)
  note f = transferOwnership_fields [OF this transfer(2)]
  show ?thesis by (simp add: f(14))
next
  case (deactivate t)
  then show ?thesis by (simp add: deactivateDrug_Inr)
next
  case (assign user role)
  with assms(3) show ?thesis by (auto simp: assignRole_Inr)
next
  case inherited
  from assms(1) have "enum_ok s" by (simp add: state_ok_def)
  from inherited_exec(5) [OF inherited this assms(2)] show ?thesis by simp
qed

lemma roles_transact:
  assumes "state_ok s" "\<forall>role. c \<noteq> AssignRole u role"
  shows "userRoles (transact sender now c s) u = userRoles s u"
  using transact_cases [of sender now c s] roles_exec [OF assms(1) _ assms(2), of sender now]
  by metis

lemma userRoles_run:
  "state_ok s \<Longrightarrow> \<forall>x \<in> set tr. \<forall>role. snd (snd x) \<noteq> AssignRole u role \<Longrightarrow>
     userRoles (run tr s) u = userRoles s u"
proof (induction tr s rule: run.induct)
  case (1 s)
  then show ?case by simp
next
  case (2 sender now c cs s)
  have ok: "state_ok (transact sender now c s)"
    using "2.prems"(1) by (rule state_ok_transact)
  from "2.prems"(2) have c: "\<forall>role. c \<noteq> AssignRole u role"
    and cs: "\<forall>x \<in> set cs. \<forall>role. snd (snd x) \<noteq> AssignRole u role" by simp_all
  from "2.IH" [OF ok cs] roles_transact [OF "2.prems"(1) c, of sender now]
  show ?case by simp
qed

lemma state_ok_constructor: "state_ok (constructor d)"
  by (simp add: state_ok_def enum_ok_constructor history_ok_constructor)

text \<open>
  C10. The constructor gives the deployer the role "manufacturer". As long as no
  \<open>assignRole\<close> call has been made, whatever else has been called, \<open>getUserRole\<close>
  returns "manufacturer" for the deployer and the empty string, the value of a role
  that was never set, for every other address.
\<close>

theorem deployer_is_manufacturer:
  assumes "\<forall>x \<in> set tr. \<forall>user role. snd (snd x) \<noteq> AssignRole user role"
  shows "getUserRole (run tr (constructor d)) u = (if u = d then ''manufacturer'' else [])"
proof -
  from assms have "\<forall>x \<in> set tr. \<forall>role. snd (snd x) \<noteq> AssignRole u role" by blast
  with state_ok_constructor
  have "userRoles (run tr (constructor d)) u = userRoles (constructor d) u"
    by (rule userRoles_run)
  then show ?thesis by (simp add: getUserRole_def constructor_def)
qed

theorem deployer_is_manufacturer_witness:
  "getUserRole (run [(1, 100, RegisterDrug ''B1'' ''Drug'' ''Maker'' 200 ''Qm'')] (constructor 1)) 1
     = ''manufacturer'' \<and>
   getUserRole (run [(1, 100, RegisterDrug ''B1'' ''Drug'' ''Maker'' 200 ''Qm'')] (constructor 1)) 2
     = []"
  using deployer_is_manufacturer
      [where tr = "[(1, 100, RegisterDrug ''B1'' ''Drug'' ''Maker'' 200 ''Qm'')]"
         and d = 1 and u = 1]
    deployer_is_manufacturer
      [where tr = "[(1, 100, RegisterDrug ''B1'' ''Drug'' ''Maker'' 200 ''Qm'')]"
         and d = 1 and u = 2]
  by simp




subsection \<open>The preconditions of a transfer\<close>

lemma transfer_failure:
  assumes "first_failing_check s t requester newOwner now = Some c"
  shows "\<exists>e. transferOwnership requester now t newOwner etype s = Inl e \<and>
           failed_check e = Some c \<and> kind e = Some (check_kind c)"
  using assms
  by (auto simp: first_failing_check_def transferOwnership_def ownerOf_def
      split: if_splits)

lemma transfer_success:
  assumes "s = run tr (constructor d)"
    and "first_failing_check s t requester newOwner now = None"
  shows "\<exists>s'. transferOwnership requester now t newOwner etype s = Inr s'"
proof -
  have "state_ok s" unfolding assms(1) by (rule state_ok_reachable)
  then have e: "enum_ok s" by (simp add: state_ok_def)
  from assms(2) show ?thesis
    unfolding transferOwnership_Inr [OF e]
    by (auto simp: first_failing_check_def ownerOf_def split: if_splits)
qed

lemma transact_failed_transfer:
  "transferOwnership requester now t newOwner etype s = Inl e \<Longrightarrow>
     transact requester now (TransferOwnership t newOwner etype) s = s"
  by (simp add: transact_def)

text \<open>
  C2. The current owner of a batch being the owner of its token: in every state the
  contract reaches, by its own functions and by the ones it inherits, when one of
  the six preconditions of a transfer fails, \<open>transferOwnership\<close> reverts with the
  reason of the first check that fails in the listed order (existence, requester is
  the owner, new owner differs from the owner, new owner is not the zero address,
  batch active, batch not expired), an error of that check's kind, and the storage is
  unchanged; when none fails it succeeds. So a requester who is not the owner gets
  the authorization error on an inactive batch too, and the owner gets "Drug is not
  active" and not "Drug has expired" on a batch that is both inactive and expired.
  Whatever the failure, the storage after the transaction is the storage before it.
\<close>

theorem transfer_checks_in_order:
  assumes "s = run tr (constructor d)"
  shows "(\<forall>c. first_failing_check s t requester newOwner now = Some c \<longrightarrow>
            (\<exists>e. transferOwnership requester now t newOwner etype s = Inl e \<and>
                 failed_check e = Some c \<and> kind e = Some (check_kind c))) \<and>
         (first_failing_check s t requester newOwner now = None \<longrightarrow>
            (\<exists>s'. transferOwnership requester now t newOwner etype s = Inr s')) \<and>
         (exists_token s t \<and> ownerOf s t \<noteq> Inr requester \<and> \<not> isActive (drugs s t) \<longrightarrow>
            transferOwnership requester now t newOwner etype s = Inl NotTokenOwner) \<and>
         (ownerOf s t = Inr requester \<and> newOwner \<noteq> 0 \<and> newOwner \<noteq> requester \<and>
            \<not> isActive (drugs s t) \<and> \<not> now < expiryDate (drugs s t) \<longrightarrow>
            transferOwnership requester now t newOwner etype s = Inl DrugNotActive) \<and>
         (\<forall>e. transferOwnership requester now t newOwner etype s = Inl e \<longrightarrow>
            transact requester now (TransferOwnership t newOwner etype) s = s)"
proof -
  note fail = transfer_failure [of s t requester newOwner now _ etype]
  note succ = transfer_success [OF assms, of t requester newOwner now etype]
  have 3: "transferOwnership requester now t newOwner etype s = Inl NotTokenOwner"
    if "exists_token s t" "ownerOf s t \<noteq> Inr requester"
    using that by (auto simp: transferOwnership_def ownerOf_def exists_token_def)
  have 4: "transferOwnership requester now t newOwner etype s = Inl DrugNotActive"
    if "ownerOf s t = Inr requester" "newOwner \<noteq> 0"
      "newOwner \<noteq> requester" "\<not> isActive (drugs s t)"
    using that by (simp add: transferOwnership_def)
  from fail succ 3 4 transact_failed_transfer [of requester now t newOwner etype s]
  show ?thesis by blast
qed

theorem transfer_checks_in_order_witness:
  "first_failing_check
      (run [(1, 100, RegisterDrug ''B1'' ''Drug'' ''Maker'' 200 ''Qm''),
            (1, 102, TransferFrom 1 2 1), (2, 105, DeactivateDrug 1)] (constructor 1))
      1 1 3 300 = Some RequesterIsOwner \<and>
   (\<exists>e. transferOwnership 1 300 1 3 ''transfer''
      (run [(1, 100, RegisterDrug ''B1'' ''Drug'' ''Maker'' 200 ''Qm''),
            (1, 102, TransferFrom 1 2 1), (2, 105, DeactivateDrug 1)] (constructor 1)) = Inl e \<and>
     failed_check e = Some RequesterIsOwner \<and> kind e = Some AuthorizationError) \<and>
   transferOwnership 2 300 1 3 ''transfer''
      (run [(1, 100, RegisterDrug ''B1'' ''Drug'' ''Maker'' 200 ''Qm''),
            (1, 102, TransferFrom 1 2 1), (2, 105, DeactivateDrug 1)] (constructor 1))
     = Inl DrugNotActive \<and>
   first_failing_check
      (run [(1, 100, RegisterDrug ''B1'' ''Drug'' ''Maker'' 200 ''Qm''),
            (1, 102, TransferFrom 1 2 1)] (constructor 1))
      1 2 3 150 = None \<and>
   (\<exists>s'. transferOwnership 2 150 1 3 ''transfer''
      (run [(1, 100, RegisterDrug ''B1'' ''Drug'' ''Maker'' 200 ''Qm''),
            (1, 102, TransferFrom 1 2 1)] (constructor 1)) = Inr s')"
proof -
  let ?tr = "[(1, 100, RegisterDrug ''B1'' ''Drug'' ''Maker'' 200 ''Qm''),
            (1, 102, TransferFrom 1 2 1), (2, 105, DeactivateDrug 1)]
            :: (address \<times> uint256 \<times> call) list"
  let ?s = "run ?tr (constructor 1)"
  let ?tr2 = "[(1, 100, RegisterDrug ''B1'' ''Drug'' ''Maker'' 200 ''Qm''),
            (1, 102, TransferFrom 1 2 1)] :: (address \<times> uint256 \<times> call) list"
  let ?s2 = "run ?tr2 (constructor 1)"
  have f: "first_failing_check ?s 1 1 3 300 = Some RequesterIsOwner"
    by (simp add: first_failing_check_def eval_defs)
  have h: "ownerOf ?s 1 = Inr 2 \<and> (3 :: address) \<noteq> 0 \<and>
      (3 :: address) \<noteq> 2 \<and> \<not> isActive (drugs ?s 1) \<and> \<not> 300 < expiryDate (drugs ?s 1)"
    by (simp add: eval_defs)
  have g: "first_failing_check ?s2 1 2 3 150 = None"
    by (simp add: first_failing_check_def eval_defs)
  note a = transfer_checks_in_order
      [where tr = ?tr and d = 1 and t = 1 and requester = 1
        and newOwner = 3 and now = 300 and etype = "''transfer''", OF refl]
  note b = transfer_checks_in_order
      [where tr = ?tr and d = 1 and t = 1 and requester = 2
        and newOwner = 3 and now = 300 and etype = "''transfer''", OF refl]
  note c = transfer_checks_in_order
      [where tr = ?tr2 and d = 1 and t = 1 and requester = 2
        and newOwner = 3 and now = 150 and etype = "''transfer''", OF refl]
  from a f have 1: "\<exists>e. transferOwnership 1 300 1 3 ''transfer'' ?s = Inl e \<and>
     failed_check e = Some RequesterIsOwner \<and> kind e = Some AuthorizationError"
    by (metis check_kind.simps(2))
  from b h have 2: "transferOwnership 2 300 1 3 ''transfer'' ?s = Inl DrugNotActive"
    by blast
  from c g have 3: "\<exists>s'. transferOwnership 2 150 1 3 ''transfer'' ?s2 = Inr s'"
    by blast
  from f 1 2 g 3 show ?thesis by (intro conjI)
qed

subsection \<open>Deactivation\<close>








subsection \<open>A successful transfer\<close>







subsection \<open>Registration\<close>

lemma codes_ok_constructor: "codes_ok (constructor d)"
  by (simp add: codes_ok_def constructor_def)

lemma codes_ok_registered:
  assumes "codes_ok s"
  shows "registered s bid \<longleftrightarrow> batchIdToTokenId s bid \<noteq> 0"
proof
  assume "registered s bid"
  then obtain t where t: "owners s t \<noteq> 0" "batchId (drugs s t) = bid"
    by (auto simp: registered_def exists_token_def)
  with assms have "batchIdToTokenId s bid = t" by (auto simp: codes_ok_def)
  moreover from t(1) assms have "t \<noteq> 0" by (auto simp: codes_ok_def)
  ultimately show "batchIdToTokenId s bid \<noteq> 0" by simp
next
  assume "batchIdToTokenId s bid \<noteq> 0"
  with assms have "owners s (batchIdToTokenId s bid) \<noteq> 0"
    "batchId (drugs s (batchIdToTokenId s bid)) = bid"
    by (auto simp: codes_ok_def)
  then show "registered s bid" by (auto simp: registered_def exists_token_def)
qed

lemma codes_ok_registerDrug:
  assumes "codes_ok s" "registerDrug sender now bid dname manu expiry ipfs s = Inr (tid, s')"
    and "tid \<noteq> 0"
  shows "codes_ok s'"
proof -
  note f = registerDrug_fields [OF assms(2)]
  from assms(2) have z: "batchIdToTokenId s bid = 0" by (simp add: registerDrug_Inr)
  have a: "owners s' 0 = 0" using assms(1,3) by (simp add: f(6) codes_ok_def)
  have b: "batchIdToTokenId s' (batchId (drugs s' t)) = t" if "owners s' t \<noteq> 0" for t
  proof (cases "t = tid")
    case True
    then show ?thesis by (simp add: f(7,8))
  next
    case False
    with that have o: "owners s t \<noteq> 0" by (simp add: f(6))
    with assms(1) have i: "batchIdToTokenId s (batchId (drugs s t)) = t"
      by (simp add: codes_ok_def)
    from o assms(1) have "t \<noteq> 0" by (auto simp: codes_ok_def)
    with i z have "batchId (drugs s t) \<noteq> bid" by auto
    with False i show ?thesis by (simp add: f(7,8))
  qed
  have c: "owners s' (batchIdToTokenId s' b) \<noteq> 0 \<and>
      batchId (drugs s' (batchIdToTokenId s' b)) = b" if "batchIdToTokenId s' b \<noteq> 0" for b
  proof (cases "b = bid")
    case True
    then show ?thesis using f(1) by (simp add: f(6,7,8))
  next
    case False
    with that have n: "batchIdToTokenId s b \<noteq> 0" by (simp add: f(8))
    with assms(1) have o: "owners s (batchIdToTokenId s b) \<noteq> 0"
      "batchId (drugs s (batchIdToTokenId s b)) = b"
      by (auto simp: codes_ok_def)
    from o(1) f(2) have "batchIdToTokenId s b \<noteq> tid" by auto
    with False o show ?thesis by (simp add: f(6,7,8))
  qed
  from a b c show ?thesis unfolding codes_ok_def by blast
qed

lemma codes_ok_transferOwnership:
  assumes "enum_ok s" "codes_ok s" "transferOwnership sender now t to etype s = Inr s'"
  shows "codes_ok s'"
proof -
  note f = transferOwnership_fields [OF assms(1,3)]
  from assms(2) f(1,2) have "t \<noteq> 0" by (auto simp: codes_ok_def)
  then show ?thesis
    using assms(2) f(1,2,3) unfolding codes_ok_def f(9,10,11) by auto
qed

lemma codes_ok_exec:
  assumes "state_ok s" "codes_ok s" "exec sender now c s = Inr (r, s')"
    and "tokenIdCounter s + 1 \<noteq> 0"
  shows "codes_ok s'"
  using assms(3)
proof (cases rule: exec_elims)
  case (register bid dname manu expiry ipfs tid)
  from registerDrug_fields(3) [OF register(2)] assms(4) have "tid \<noteq> 0" by simp
  with assms(2) register(2) show ?thesis by (rule codes_ok_registerDrug)
next
  case (transfer t to etype)
  then show ?thesis
    using assms(1,2) codes_ok_transferOwnership unfolding state_ok_def by blast
next
  case (deactivate t)
  then have "s' = s\<lparr>drugs := (drugs s)(t := (drugs s t)\<lparr>isActive := False\<rparr>)\<rparr>"
    by (simp add: deactivateDrug_Inr)
  then show ?thesis using assms(2) by (auto simp: codes_ok_def)
next
  case (assign user role)
  then have "s' = s\<lparr>userRoles := (userRoles s)(user := role),
            logs := logs s @ [RoleAssigned user role]\<rparr>"
    by (simp add: assignRole_Inr)
  then show ?thesis using assms(2) by (simp add: codes_ok_def)
next
  case inherited
  from assms(1) have "enum_ok s" by (simp add: state_ok_def)
  note f = inherited_exec [OF inherited this assms(3)]
  show ?thesis using assms(2) f(8) unfolding codes_ok_def f(2,4) by simp
qed

lemma counter_exec:
  assumes "state_ok s" "exec sender now c s = Inr (r, s')"
  shows "tokenIdCounter s' = tokenIdCounter s \<or> tokenIdCounter s' = tokenIdCounter s + 1"
  using assms(2)
proof (cases rule: exec_elims)
  case (register bid dname manu expiry ipfs tid)
  from registerDrug_fields(3,4) [OF register(2)] show ?thesis by simp
next
  case (transfer t to etype)
  from assms(1) have "enum_ok s" by (simp add: state_ok_def)
  from transferOwnership_fields(7) [OF this transfer(2)] show ?thesis by simp
next
  case (deactivate t)
  then show ?thesis by (simp add: deactivateDrug_Inr)
next
  case (assign user role)
  then show ?thesis by (simp add: assignRole_Inr)
next
  case inherited
  from assms(1) have "enum_ok s" by (simp add: state_ok_def)
  from inherited_exec(6) [OF inherited this assms(2)] show ?thesis by simp
qed

lemma unat_succ_uint256:
  fixes c :: uint256
  assumes "unat c + 1 < 2 ^ 256"
  shows "c + 1 \<noteq> 0" and "unat (c + 1) = unat c + 1"
proof -
  from assms have "unat c + unat (1 :: uint256) < 2 ^ LENGTH(256)" by simp
  then have "unat (c + 1) = unat c + unat (1 :: uint256)"
    by (simp only: unat_add_lem)
  then show u: "unat (c + 1) = unat c + 1" by simp
  show "c + 1 \<noteq> 0"
  proof
    assume "c + 1 = 0"
    with u show False by simp
  qed
qed

lemma codes_ok_transact:
  assumes "state_ok s" "codes_ok s" "unat (tokenIdCounter s) + 1 < 2 ^ 256"
  shows "codes_ok (transact sender now c s) \<and>
         unat (tokenIdCounter (transact sender now c s)) \<le> unat (tokenIdCounter s) + 1"
proof -
  note w = unat_succ_uint256 [OF assms(3)]
  from transact_cases [of sender now c s] show ?thesis
  proof
    assume "transact sender now c s = s"
    with assms(2) show ?thesis by simp
  next
    assume "\<exists>r s'. exec sender now c s = Inr (r, s') \<and> transact sender now c s = s'"
    then obtain r s' where e: "exec sender now c s = Inr (r, s')"
      and t: "transact sender now c s = s'" by blast
    from codes_ok_exec [OF assms(1,2) e w(1)] have "codes_ok s'" .
    moreover from counter_exec [OF assms(1) e] w(2)
    have "unat (tokenIdCounter s') \<le> unat (tokenIdCounter s) + 1" by auto
    ultimately show ?thesis using t by simp
  qed
qed

lemma codes_ok_run:
  "state_ok s \<Longrightarrow> codes_ok s \<Longrightarrow> unat (tokenIdCounter s) + length tr < 2 ^ 256 \<Longrightarrow>
     codes_ok (run tr s) \<and>
     unat (tokenIdCounter (run tr s)) \<le> unat (tokenIdCounter s) + length tr"
proof (induction tr s rule: run.induct)
  case (1 s)
  then show ?case by simp
next
  case (2 sender now c cs s)
  from "2.prems"(3) have b: "unat (tokenIdCounter s) + 1 < 2 ^ 256" by simp
  note st = codes_ok_transact [OF "2.prems"(1,2) b, of sender now c]
  have ok: "state_ok (transact sender now c s)"
    using "2.prems"(1) by (rule state_ok_transact)
  from st "2.prems"(3)
  have "unat (tokenIdCounter (transact sender now c s)) + length cs < 2 ^ 256" by simp
  from "2.IH" [OF ok conjunct1 [OF st] this] st show ?case by simp
qed

lemma codes_ok_reachable:
  assumes "s = run tr (constructor d)" "length tr < 2 ^ 256 - 1"
  shows "codes_ok s" and "unat (tokenIdCounter s) + 1 < 2 ^ 256"
proof -
  have c0: "unat (tokenIdCounter (constructor d)) = 0" by (simp add: constructor_def)
  note ok = state_ok_constructor
  have b: "unat (tokenIdCounter (constructor d)) + length tr < 2 ^ 256"
    using assms(2) c0 by simp
  have r: "codes_ok (run tr (constructor d)) \<and>
      unat (tokenIdCounter (run tr (constructor d)))
        \<le> unat (tokenIdCounter (constructor d)) + length tr"
    by (rule codes_ok_run [OF ok codes_ok_constructor b])
  then show "codes_ok s" by (simp add: assms(1))
  from r c0 assms(2) show "unat (tokenIdCounter s) + 1 < 2 ^ 256"
    by (simp add: assms(1))
qed

lemma register_validation:
  "(\<exists>e. registerDrug sender now bid dname manu expiry ipfs s = Inl e \<and>
        kind e = Some ValidationError) \<longleftrightarrow>
   (bid = [] \<or> dname = [] \<or> manu = [] \<or> \<not> now < expiry)"
  by (auto simp: registerDrug_def safeMint_def Let_def split: if_splits)

lemma register_conflict:
  "(\<exists>e. registerDrug sender now bid dname manu expiry ipfs s = Inl e \<and>
        kind e = Some ConflictError) \<longleftrightarrow>
   (bid \<noteq> [] \<and> dname \<noteq> [] \<and> manu \<noteq> [] \<and> now < expiry \<and> batchIdToTokenId s bid \<noteq> 0)"
  by (auto simp: registerDrug_def safeMint_def Let_def split: if_splits)

lemma register_again:
  assumes "registerDrug sender now bid dname manu expiry ipfs s = Inr (tid, s')"
    and "tid \<noteq> 0" and "dname2 \<noteq> []" and "manu2 \<noteq> []" and "now2 < expiry2"
  shows "registerDrug sender2 now2 bid dname2 manu2 expiry2 ipfs2 s' = Inl BatchIdExists"
proof -
  note f = registerDrug_fields [OF assms(1)]
  from assms(1) have "bid \<noteq> []" by (simp add: registerDrug_Inr)
  then show ?thesis using assms(2-5) by (simp add: registerDrug_def f(8))
qed

text \<open>
  C5, with the order of the checks as the contract has it. In every state reached
  by fewer than \<open>2^256 - 1\<close> transactions (the id counter cannot have wrapped):
  \<open>registerDrug\<close> fails with a validation error exactly when the batch code, the name
  or the manufacturer is empty or the expiry is not strictly after the block time;
  it fails with the conflict error exactly when none of these holds and the batch
  code is already registered. A failed registration leaves the storage, and so the
  count, unchanged. A successful one returns the count plus one, which is 1 when
  nothing was registered before, makes that the new count, and registers the code,
  so that every later registration of the same code with a non-empty name and
  manufacturer and a future expiry fails with "Batch ID already exists".
\<close>

theorem register_failures:
  assumes "s = run tr (constructor d)" and "length tr < 2 ^ 256 - 1"
  shows "((\<exists>e. registerDrug sender now bid dname manu expiry ipfs s = Inl e \<and>
             kind e = Some ValidationError) \<longleftrightarrow>
          (bid = [] \<or> dname = [] \<or> manu = [] \<or> \<not> now < expiry)) \<and>
         ((\<exists>e. registerDrug sender now bid dname manu expiry ipfs s = Inl e \<and>
             kind e = Some ConflictError) \<longleftrightarrow>
          (bid \<noteq> [] \<and> dname \<noteq> [] \<and> manu \<noteq> [] \<and> now < expiry \<and> registered s bid)) \<and>
         (\<forall>e. registerDrug sender now bid dname manu expiry ipfs s = Inl e \<longrightarrow>
            transact sender now (RegisterDrug bid dname manu expiry ipfs) s = s \<and>
            totalDrugs (transact sender now (RegisterDrug bid dname manu expiry ipfs) s)
              = totalDrugs s) \<and>
         (\<forall>tid s'. registerDrug sender now bid dname manu expiry ipfs s = Inr (tid, s') \<longrightarrow>
            tid = totalDrugs s + 1 \<and> totalDrugs s' = tid \<and>
            (totalDrugs s = 0 \<longrightarrow> tid = 1) \<and> registered s' bid \<and>
            (\<forall>sender2 now2 dname2 manu2 expiry2 ipfs2.
               dname2 \<noteq> [] \<and> manu2 \<noteq> [] \<and> now2 < expiry2 \<longrightarrow>
               registerDrug sender2 now2 bid dname2 manu2 expiry2 ipfs2 s'
                 = Inl BatchIdExists))"
proof -
  note c = codes_ok_reachable [OF assms]
  note w = unat_succ_uint256 [OF c(2)]
  have 2: "(\<exists>e. registerDrug sender now bid dname manu expiry ipfs s = Inl e \<and>
             kind e = Some ConflictError) \<longleftrightarrow>
          (bid \<noteq> [] \<and> dname \<noteq> [] \<and> manu \<noteq> [] \<and> now < expiry \<and> registered s bid)"
    unfolding register_conflict codes_ok_registered [OF c(1)] ..
  have 3: "\<forall>e. registerDrug sender now bid dname manu expiry ipfs s = Inl e \<longrightarrow>
            transact sender now (RegisterDrug bid dname manu expiry ipfs) s = s \<and>
            totalDrugs (transact sender now (RegisterDrug bid dname manu expiry ipfs) s)
              = totalDrugs s"
    by (simp add: transact_def)
  have 4: "tid = totalDrugs s + 1 \<and> totalDrugs s' = tid \<and>
            (totalDrugs s = 0 \<longrightarrow> tid = 1) \<and> registered s' bid \<and>
            (\<forall>sender2 now2 dname2 manu2 expiry2 ipfs2.
               dname2 \<noteq> [] \<and> manu2 \<noteq> [] \<and> now2 < expiry2 \<longrightarrow>
               registerDrug sender2 now2 bid dname2 manu2 expiry2 ipfs2 s'
                 = Inl BatchIdExists)"
    if r: "registerDrug sender now bid dname manu expiry ipfs s = Inr (tid, s')" for tid s'
  proof -
    note f = registerDrug_fields [OF r]
    from f(3) w(1) have nz: "tid \<noteq> 0" by simp
    have a: "tid = totalDrugs s + 1" by (simp add: totalDrugs_def f(3))
    have b: "totalDrugs s' = tid" by (simp add: totalDrugs_def f(4))
    have c: "totalDrugs s = 0 \<longrightarrow> tid = 1" using a by simp
    have "exists_token s' tid \<and> batchId (drugs s' tid) = bid"
      using f(1) by (simp add: exists_token_def f(6,7))
    then have d: "registered s' bid" unfolding registered_def by blast
    have e: "\<forall>sender2 now2 dname2 manu2 expiry2 ipfs2.
               dname2 \<noteq> [] \<and> manu2 \<noteq> [] \<and> now2 < expiry2 \<longrightarrow>
               registerDrug sender2 now2 bid dname2 manu2 expiry2 ipfs2 s'
                 = Inl BatchIdExists"
      using register_again [OF r nz] by blast
    from a b c d e show ?thesis by (intro conjI)
  qed
  have D4: "\<forall>tid s'. registerDrug sender now bid dname manu expiry ipfs s = Inr (tid, s') \<longrightarrow>
            tid = totalDrugs s + 1 \<and> totalDrugs s' = tid \<and>
            (totalDrugs s = 0 \<longrightarrow> tid = 1) \<and> registered s' bid \<and>
            (\<forall>sender2 now2 dname2 manu2 expiry2 ipfs2.
               dname2 \<noteq> [] \<and> manu2 \<noteq> [] \<and> now2 < expiry2 \<longrightarrow>
               registerDrug sender2 now2 bid dname2 manu2 expiry2 ipfs2 s'
                 = Inl BatchIdExists)"
    using 4 by (intro allI impI)
  from register_validation [of sender now bid dname manu expiry ipfs s] 2 3 D4
  show ?thesis by (intro conjI)
qed

theorem register_failures_witness:
  "(\<exists>tid s'. registerDrug 1 100 ''BTC-2024-001'' ''Drug'' ''Maker'' 200 ''Qm'' (run [] (constructor 1))
        = Inr (tid, s') \<and> tid = 1 \<and>
      registerDrug 2 150 ''BTC-2024-001'' ''Other'' ''Other Maker'' 300 ''Qm'' s'
        = Inl BatchIdExists) \<and>
   (\<exists>e. registerDrug 1 100 [] ''Drug'' ''Maker'' 200 ''Qm'' (run [] (constructor 1)) = Inl e \<and>
      kind e = Some ValidationError) \<and>
   totalDrugs (transact 1 100 (RegisterDrug [] ''Drug'' ''Maker'' 200 ''Qm'') (run [] (constructor 1)))
     = totalDrugs (run [] (constructor 1))"
proof -
  have l: "length ([] :: (address \<times> uint256 \<times> call) list) < 2 ^ 256 - 1" by simp
  note a = register_failures [OF refl l,
      where sender = 1 and now = 100 and bid = "''BTC-2024-001''" and dname = "''Drug''"
        and manu = "''Maker''" and expiry = 200 and ipfs = "''Qm''" and d = 1]
  note b = register_failures [OF refl l,
      where sender = 1 and now = 100 and bid = "[]" and dname = "''Drug''"
        and manu = "''Maker''" and expiry = 200 and ipfs = "''Qm''" and d = 1]
  obtain tid s' where r: "registerDrug 1 100 ''BTC-2024-001'' ''Drug'' ''Maker'' 200 ''Qm''
      (run [] (constructor 1)) = Inr (tid, s')"
    by (simp add: eval_defs)
  have t0: "totalDrugs (run [] (constructor 1)) = 0" by (simp add: totalDrugs_def constructor_def)
  from a r t0 have "tid = 1" by blast
  moreover from a r
  have "(''Other'' :: string) \<noteq> [] \<and> (''Other Maker'' :: string) \<noteq> [] \<and> (150 :: uint256) < 300 \<longrightarrow>
      registerDrug 2 150 ''BTC-2024-001'' ''Other'' ''Other Maker'' 300 ''Qm'' s' = Inl BatchIdExists"
    by blast
  then have "registerDrug 2 150 ''BTC-2024-001'' ''Other'' ''Other Maker'' 300 ''Qm'' s'
      = Inl BatchIdExists" by simp
  ultimately have 1: "\<exists>tid s'. registerDrug 1 100 ''BTC-2024-001'' ''Drug'' ''Maker'' 200 ''Qm''
        (run [] (constructor 1)) = Inr (tid, s') \<and> tid = 1 \<and>
      registerDrug 2 150 ''BTC-2024-001'' ''Other'' ''Other Maker'' 300 ''Qm'' s'
        = Inl BatchIdExists"
    using r by blast
  from b have 2: "\<exists>e. registerDrug 1 100 [] ''Drug'' ''Maker'' 200 ''Qm'' (run [] (constructor 1)) = Inl e \<and>
      kind e = Some ValidationError" by simp
  then obtain e where "registerDrug 1 100 [] ''Drug'' ''Maker'' 200 ''Qm'' (run [] (constructor 1)) = Inl e"
    by blast
  with b have 3: "totalDrugs (transact 1 100 (RegisterDrug [] ''Drug'' ''Maker'' 200 ''Qm'')
      (run [] (constructor 1))) = totalDrugs (run [] (constructor 1))" by blast
  from 1 2 3 show ?thesis by (intro conjI)
qed

text \<open>
  Registering a code that is already registered, with an empty drug name, fails with
  "Drug name cannot be empty", a validation error and not the conflict error.
\<close>

theorem registered_code_invalid_name_is_validation_error:
  "exists_token (run [(1, 100, RegisterDrug ''B1'' ''Drug'' ''Maker'' 200 ''Qm'')] (constructor 1)) 1 \<and>
   batchId (drugs (run [(1, 100, RegisterDrug ''B1'' ''Drug'' ''Maker'' 200 ''Qm'')] (constructor 1)) 1)
     = ''B1'' \<and>
   registerDrug 2 150 ''B1'' [] ''Maker'' 300 ''Qm''
      (run [(1, 100, RegisterDrug ''B1'' ''Drug'' ''Maker'' 200 ''Qm'')] (constructor 1))
     = Inl DrugNameEmpty \<and>
   kind DrugNameEmpty = Some ValidationError \<and> kind DrugNameEmpty \<noteq> Some ConflictError"
  by (simp add: eval_defs)

section \<open>Properties of the server storage\<close>

subsection \<open>Comparing identities\<close>




subsection \<open>The stored batches\<close>

lemma update_fresh: "k \<notin> fst ` set al \<Longrightarrow> AList.update k v al = al @ [(k, v)]"
  by (induction al) auto

lemma length_update_present:
  "k \<in> fst ` set al \<Longrightarrow> length (AList.update k v al) = length al"
  by (induction al) auto

lemma count_update:
  "distinct (map fst al) \<Longrightarrow> map_of al k = Some v \<Longrightarrow>
     length (filter P (map snd (AList.update k v' al))) + (if P v then 1 else 0)
       = length (filter P (map snd al)) + (if P v' then 1 else (0 :: nat))"
proof (induction al)
  case Nil
  then show ?case by simp
next
  case (Cons p al)
  obtain k0 v0 where p: "p = (k0, v0)" by (cases p)
  show ?case
  proof (cases "k0 = k")
    case True
    with Cons.prems p show ?thesis by auto
  next
    case False
    with Cons.prems p have "map_of al k = Some v" "distinct (map fst al)" by auto
    from Cons.IH [OF this(2,1)] False p show ?thesis by auto
  qed
qed

lemma list_all_update:
  "list_all Q al \<Longrightarrow> Q (k, v) \<Longrightarrow> list_all Q (AList.update k v al)"
  by (induction al) auto

lemma store_ok_lookup:
  assumes "store_ok st" "b \<in> set (values_of (drugBatches st))"
  shows "map_of (drugBatches st) (db_id b) = Some b"
proof -
  from assms(2) obtain k where k: "(k, b) \<in> set (drugBatches st)"
    by (auto simp: values_of_def)
  with assms(1) have "db_id b = k" by (auto simp: store_ok_def list_all_iff)
  with k assms(1) show ?thesis by (simp add: store_ok_def)
qed

lemma store_ok_stored:
  assumes "store_ok st" "map_of (drugBatches st) k = Some b"
  shows "db_id b = k"
proof -
  from assms(2) have "(k, b) \<in> set (drugBatches st)" by (rule map_of_SomeD)
  with assms(1) show ?thesis by (auto simp: store_ok_def list_all_iff)
qed

lemma find_batch:
  assumes "getDrugBatchByBatchId st bid = Some cur"
  shows "cur \<in> set (values_of (drugBatches st))" and "db_batchId cur = bid"
  using assms by (auto simp: getDrugBatchByBatchId_def find_Some_iff)

lemma store_ok_new: "store_ok newMemStorage"
  by (simp add: store_ok_def newMemStorage_def)

text \<open>What a successful transfer request does to a well-formed storage.\<close>

lemma transferRoute_200:
  assumes "store_ok st" "transferRoute eventId now body st = (Status200 updated ev, st')"
  obtains bid newOwner addr etype cur where
    "body_batchId body = Some bid" "body_newOwner body = Some newOwner"
    "body_newOwnerAddress body = Some addr" "body_eventType body = Some etype"
    "getDrugBatchByBatchId st bid = Some cur"
    "map_of (drugBatches st) (db_id cur) = Some cur"
    "updated = cur\<lparr>db_currentOwner := newOwner, db_currentOwnerAddress := addr,
        db_status := (if etype = ''deliver'' then ''delivered'' else ''in_transit''),
        db_updatedAt := now\<rparr>"
    "drugBatches st' = AList.update (db_id cur) updated (drugBatches st)"
    "se_eventType ev = etype"
proof -
  from assms(2) obtain bid newOwner addr etype cur existing where
    b: "body_batchId body = Some bid" "body_newOwner body = Some newOwner"
      "body_newOwnerAddress body = Some addr" "body_eventType body = Some etype"
    and c: "getDrugBatchByBatchId st bid = Some cur"
    and e: "map_of (drugBatches st) (db_id cur) = Some existing"
    and u: "updated = existing\<lparr>db_currentOwner := newOwner, db_currentOwnerAddress := addr,
        db_status := (if etype = ''deliver'' then ''delivered'' else ''in_transit''),
        db_updatedAt := now\<rparr>"
    and d: "drugBatches st' = AList.update (db_id cur) updated (drugBatches st)"
    and t: "se_eventType ev = etype"
    by (auto simp: transferRoute_def updateDrugBatch_def createSupplyChainEvent_def Let_def
        split: option.splits if_splits prod.splits)
  from store_ok_lookup [OF assms(1) find_batch(1) [OF c]] e have "existing = cur" by simp
  with b c e u d t that show ?thesis by blast
qed

lemma transferRoute_other:
  assumes "transferRoute eventId now body st = (r, st')" "\<forall>u e. r \<noteq> Status200 u e"
  shows "st' = st"
  using assms
  by (auto simp: transferRoute_def updateDrugBatch_def createSupplyChainEvent_def Let_def
      split: option.splits if_splits prod.splits)

lemma createRoute_result:
  "createRoute batchKey eventId now ins st = (r, st') \<Longrightarrow>
     r = Status201 (fst (createDrugBatch batchKey now ins st))
           (fst (createSupplyChainEvent eventId now
             \<lparr>ie_batchId = in_batchId ins, ie_fromOwner = None,
              ie_toOwner = in_currentOwner ins, ie_fromOwnerAddress = None,
              ie_toOwnerAddress = in_currentOwnerAddress ins,
              ie_eventType = ''manufacture'', ie_transactionHash = None,
              ie_blockNumber = None\<rparr> (snd (createDrugBatch batchKey now ins st)))) \<and>
     drugBatches st' =
       AList.update batchKey (fst (createDrugBatch batchKey now ins st)) (drugBatches st)"
  by (auto simp: createRoute_def createDrugBatch_def createSupplyChainEvent_def Let_def
      split: prod.splits)

lemma store_ok_handle:
  assumes "store_ok st"
  shows "store_ok (snd (handle now r st))"
proof (cases r)
  case (PostDrugBatch batchKey eventId ins)
  obtain rs st' where h: "createRoute batchKey eventId now ins st = (rs, st')"
    by (cases "createRoute batchKey eventId now ins st")
  from createRoute_result [OF h]
  have d: "drugBatches st' =
       AList.update batchKey (fst (createDrugBatch batchKey now ins st)) (drugBatches st)"
    by simp
  have i: "db_id (fst (createDrugBatch batchKey now ins st)) = batchKey"
    by (simp add: createDrugBatch_def Let_def)
  from assms have "store_ok st'"
    unfolding store_ok_def d by (simp add: distinct_update list_all_update i)
  with h PostDrugBatch show ?thesis by simp
next
  case (PostTransfer eventId body)
  obtain rs st' where h: "transferRoute eventId now body st = (rs, st')"
    by (cases "transferRoute eventId now body st")
  have "store_ok st'"
  proof (cases "\<exists>u e. rs = Status200 u e")
    case True
    then obtain u e where rs: "rs = Status200 u e" by blast
    from h [unfolded rs] show ?thesis
    proof (rule transferRoute_200 [OF assms])
      fix bid newOwner addr etype cur
      assume m: "map_of (drugBatches st) (db_id cur) = Some cur"
        and u: "u = cur\<lparr>db_currentOwner := newOwner, db_currentOwnerAddress := addr,
          db_status := (if etype = ''deliver'' then ''delivered'' else ''in_transit''),
          db_updatedAt := now\<rparr>"
        and d: "drugBatches st' = AList.update (db_id cur) u (drugBatches st)"
      have "db_id u = db_id cur" by (simp add: u)
      with assms show "store_ok st'"
        unfolding store_ok_def d by (simp add: distinct_update list_all_update)
    qed
  next
    case False
    with transferRoute_other [OF h] assms show ?thesis by simp
  qed
  with h PostTransfer show ?thesis by simp
qed

lemma store_ok_serve: "store_ok st \<Longrightarrow> store_ok (serve reqs st)"
  by (induction reqs st rule: serve.induct) (simp_all add: store_ok_handle)

lemma keys_handle:
  assumes "store_ok st"
  shows "fst ` set (drugBatches (snd (handle now r st)))
    = fst ` set (drugBatches st) \<union> created_ids [(now, r)]"
proof (cases r)
  case (PostDrugBatch batchKey eventId ins)
  obtain rs st' where h: "createRoute batchKey eventId now ins st = (rs, st')"
    by (cases "createRoute batchKey eventId now ins st")
  from createRoute_result [OF h] h PostDrugBatch show ?thesis
    by (auto simp: dom_update)
next
  case (PostTransfer eventId body)
  obtain rs st' where h: "transferRoute eventId now body st = (rs, st')"
    by (cases "transferRoute eventId now body st")
  have "fst ` set (drugBatches st') = fst ` set (drugBatches st)"
  proof (cases "\<exists>u e. rs = Status200 u e")
    case True
    then obtain u e where rs: "rs = Status200 u e" by blast
    from h [unfolded rs] show ?thesis
    proof (rule transferRoute_200 [OF assms])
      fix cur
      assume m: "map_of (drugBatches st) (db_id cur) = Some cur"
        and d: "drugBatches st' = AList.update (db_id cur) u (drugBatches st)"
      from m have "db_id cur \<in> fst ` set (drugBatches st)"
        by (metis domI dom_map_of_conv_image_fst)
      then show ?thesis unfolding d dom_update by auto
    qed
  next
    case False
    with transferRoute_other [OF h] show ?thesis by simp
  qed
  with h PostTransfer show ?thesis by simp
qed

lemma created_ids_Cons:
  "created_ids ((now, r) # rs) = created_ids [(now, r)] \<union> created_ids rs"
  by (cases r) auto

lemma keys_serve:
  "store_ok st \<Longrightarrow>
     fst ` set (drugBatches (serve reqs st)) = fst ` set (drugBatches st) \<union> created_ids reqs"
proof (induction reqs st rule: serve.induct)
  case (1 st)
  then show ?case by simp
next
  case (2 now r rs st)
  from "2.IH" [OF store_ok_handle [OF "2.prems"]] keys_handle [OF "2.prems", of now r]
    created_ids_Cons [of now r rs]
  show ?case by auto
qed

lemma total_is_created:
  "totalBatches (getDashboardStats (serve reqs newMemStorage)) = card (created_ids reqs)"
proof -
  let ?st = "serve reqs newMemStorage"
  have ok: "store_ok ?st" by (rule store_ok_serve [OF store_ok_new])
  then have d: "distinct (map fst (drugBatches ?st))" by (simp add: store_ok_def)
  have "fst ` set (drugBatches ?st) = created_ids reqs"
    using keys_serve [OF store_ok_new, of reqs] by (simp add: newMemStorage_def)
  then have "card (created_ids reqs) = card (set (map fst (drugBatches ?st)))" by simp
  also have "\<dots> = length (drugBatches ?st)" using distinct_card [OF d] by simp
  finally show ?thesis by (simp add: getDashboardStats_def)
qed

lemma count_card:
  assumes "distinct (map fst al)"
  shows "length (filter P (map snd al)) = card {k. \<exists>v. map_of al k = Some v \<and> P v}"
proof -
  let ?xs = "filter (\<lambda>p. P (snd p)) al"
  have d: "distinct (map fst ?xs)" using assms by (rule distinct_map_filter)
  have "{k. \<exists>v. map_of al k = Some v \<and> P v} = set (map fst ?xs)"
    using assms by (auto simp: image_iff)
  then have "card {k. \<exists>v. map_of al k = Some v \<and> P v} = length (map fst ?xs)"
    using distinct_card [OF d] by simp
  also have "\<dots> = length (filter P (map snd al))"
    by (simp add: filter_map comp_def)
  finally show ?thesis by simp
qed

lemma transfer_step:
  assumes "store_ok st" "transferRoute eventId now body st = (Status200 updated ev, st')"
  shows "\<exists>bid etype cur.
      body_batchId body = Some bid \<and> body_eventType body = Some etype \<and>
      getDrugBatchByBatchId st bid = Some cur \<and> db_id updated = db_id cur \<and>
      se_eventType ev = etype \<and>
      db_status updated = (if etype = ''deliver'' then ''delivered'' else ''in_transit'') \<and>
      totalBatches (getDashboardStats st') = totalBatches (getDashboardStats st) \<and>
      activeTransfers (getDashboardStats st')
          + (if db_status cur = ''in_transit'' then 1 else 0)
        = activeTransfers (getDashboardStats st)
          + (if etype = ''deliver'' then 0 else 1)"
    and "Some (db_currentOwnerAddress updated) = body_newOwnerAddress body"
    and "getDrugBatchById st' (db_id updated) = Some updated"
    and "\<forall>k. k \<noteq> db_id updated \<longrightarrow> getDrugBatchById st' k = getDrugBatchById st k"
proof -
  from assms(2) obtain bid newOwner addr etype cur where
    b: "body_batchId body = Some bid" "body_newOwnerAddress body = Some addr"
      "body_eventType body = Some etype"
    and c: "getDrugBatchByBatchId st bid = Some cur"
    and m: "map_of (drugBatches st) (db_id cur) = Some cur"
    and u: "updated = cur\<lparr>db_currentOwner := newOwner, db_currentOwnerAddress := addr,
        db_status := (if etype = ''deliver'' then ''delivered'' else ''in_transit''),
        db_updatedAt := now\<rparr>"
    and d: "drugBatches st' = AList.update (db_id cur) updated (drugBatches st)"
    and t: "se_eventType ev = etype"
    by (rule transferRoute_200 [OF assms(1)])
  have i: "db_id updated = db_id cur" by (simp add: u)
  have s: "db_status updated = (if etype = ''deliver'' then ''delivered'' else ''in_transit'')"
    by (simp add: u)
  from m have "db_id cur \<in> fst ` set (drugBatches st)"
    by (metis domI dom_map_of_conv_image_fst)
  then have n: "totalBatches (getDashboardStats st') = totalBatches (getDashboardStats st)"
    by (simp add: getDashboardStats_def d length_update_present)
  from assms(1) have dist: "distinct (map fst (drugBatches st))" by (simp add: store_ok_def)
  have p: "db_status updated = ''in_transit'' \<longleftrightarrow> etype \<noteq> ''deliver''" by (simp add: s)
  from count_update [OF dist m, of "\<lambda>b. db_status b = ''in_transit''" updated]
  have a: "activeTransfers (getDashboardStats st')
          + (if db_status cur = ''in_transit'' then 1 else 0)
        = activeTransfers (getDashboardStats st)
          + (if etype = ''deliver'' then 0 else 1)"
    unfolding getDashboardStats_def values_of_def d p by simp
  from b c i t s n a show "\<exists>bid etype cur.
      body_batchId body = Some bid \<and> body_eventType body = Some etype \<and>
      getDrugBatchByBatchId st bid = Some cur \<and> db_id updated = db_id cur \<and>
      se_eventType ev = etype \<and>
      db_status updated = (if etype = ''deliver'' then ''delivered'' else ''in_transit'') \<and>
      totalBatches (getDashboardStats st') = totalBatches (getDashboardStats st) \<and>
      activeTransfers (getDashboardStats st')
          + (if db_status cur = ''in_transit'' then 1 else 0)
        = activeTransfers (getDashboardStats st)
          + (if etype = ''deliver'' then 0 else 1)"
    by blast
  show "Some (db_currentOwnerAddress updated) = body_newOwnerAddress body"
    by (simp add: u b)
  show "getDrugBatchById st' (db_id updated) = Some updated"
    by (simp add: getDrugBatchById_def d i update_conv')
  show "\<forall>k. k \<noteq> db_id updated \<longrightarrow> getDrugBatchById st' k = getDrugBatchById st k"
    by (simp add: getDrugBatchById_def d i update_conv')
qed

lemma create_step:
  assumes "createRoute batchKey eventId now ins st = (r, st')"
  shows "\<exists>created ev. r = Status201 created ev \<and>
      db_currentOwnerAddress created = in_currentOwnerAddress ins \<and>
      db_status created
        = (case or_null (in_status ins) of None \<Rightarrow> ''manufactured'' | Some v \<Rightarrow> v) \<and>
      se_eventType ev = ''manufacture'' \<and>
      getDrugBatchById st' batchKey = Some created \<and>
      (\<forall>k. k \<noteq> batchKey \<longrightarrow> getDrugBatchById st' k = getDrugBatchById st k) \<and>
      (getDrugBatchById st batchKey = None \<longrightarrow>
         totalBatches (getDashboardStats st') = totalBatches (getDashboardStats st) + 1 \<and>
         activeTransfers (getDashboardStats st')
           = activeTransfers (getDashboardStats st)
             + (if db_status created = ''in_transit'' then 1 else 0))"
proof -
  let ?c = "fst (createDrugBatch batchKey now ins st)"
  let ?e = "fst (createSupplyChainEvent eventId now
             \<lparr>ie_batchId = in_batchId ins, ie_fromOwner = None,
              ie_toOwner = in_currentOwner ins, ie_fromOwnerAddress = None,
              ie_toOwnerAddress = in_currentOwnerAddress ins,
              ie_eventType = ''manufacture'', ie_transactionHash = None,
              ie_blockNumber = None\<rparr> (snd (createDrugBatch batchKey now ins st)))"
  from createRoute_result [OF assms] have r: "r = Status201 ?c ?e"
    and d: "drugBatches st' = AList.update batchKey ?c (drugBatches st)"
    by (rule conjunct1, rule conjunct2)
  have e: "se_eventType ?e = ''manufacture''"
    by (simp add: createSupplyChainEvent_def Let_def)
  have a: "db_currentOwnerAddress ?c = in_currentOwnerAddress ins"
    by (simp add: createDrugBatch_def Let_def)
  have s: "db_status ?c
        = (case or_null (in_status ins) of None \<Rightarrow> ''manufactured'' | Some v \<Rightarrow> v)"
    by (simp add: createDrugBatch_def Let_def)
  have g: "getDrugBatchById st' batchKey = Some ?c"
    by (simp add: getDrugBatchById_def d update_conv')
  have f: "\<forall>k. k \<noteq> batchKey \<longrightarrow> getDrugBatchById st' k = getDrugBatchById st k"
    by (simp add: getDrugBatchById_def d update_conv')
  have n: "getDrugBatchById st batchKey = None \<longrightarrow>
         totalBatches (getDashboardStats st') = totalBatches (getDashboardStats st) + 1 \<and>
         activeTransfers (getDashboardStats st')
           = activeTransfers (getDashboardStats st)
             + (if db_status ?c = ''in_transit'' then 1 else 0)"
  proof
    assume "getDrugBatchById st batchKey = None"
    then have "batchKey \<notin> fst ` set (drugBatches st)"
      by (simp add: getDrugBatchById_def map_of_eq_None_iff)
    then have "drugBatches st' = drugBatches st @ [(batchKey, ?c)]"
      unfolding d by (rule update_fresh)
    then show "totalBatches (getDashboardStats st') = totalBatches (getDashboardStats st) + 1 \<and>
         activeTransfers (getDashboardStats st')
           = activeTransfers (getDashboardStats st)
             + (if db_status ?c = ''in_transit'' then 1 else 0)"
      by (simp add: getDashboardStats_def values_of_def)
  qed
  from r a s e g f n have "r = Status201 ?c ?e \<and>
      db_currentOwnerAddress ?c = in_currentOwnerAddress ins \<and>
      db_status ?c
        = (case or_null (in_status ins) of None \<Rightarrow> ''manufactured'' | Some v \<Rightarrow> v) \<and>
      se_eventType ?e = ''manufacture'' \<and>
      getDrugBatchById st' batchKey = Some ?c \<and>
      (\<forall>k. k \<noteq> batchKey \<longrightarrow> getDrugBatchById st' k = getDrugBatchById st k) \<and>
      (getDrugBatchById st batchKey = None \<longrightarrow>
         totalBatches (getDashboardStats st') = totalBatches (getDashboardStats st) + 1 \<and>
         activeTransfers (getDashboardStats st')
           = activeTransfers (getDashboardStats st)
             + (if db_status ?c = ''in_transit'' then 1 else 0))"
    by (intro conjI)
  then show ?thesis by (intro exI)
qed

lemma active_is_in_transit:
  assumes "st = serve reqs newMemStorage"
  shows "activeTransfers (getDashboardStats st)
    = card {k \<in> created_ids reqs.
        \<exists>b. getDrugBatchById st k = Some b \<and> db_status b = ''in_transit''}"
proof -
  have ok: "store_ok st" unfolding assms by (rule store_ok_serve [OF store_ok_new])
  then have d: "distinct (map fst (drugBatches st))" by (simp add: store_ok_def)
  have k: "fst ` set (drugBatches st) = created_ids reqs"
    unfolding assms using keys_serve [OF store_ok_new, of reqs] by (simp add: newMemStorage_def)
  have "{k \<in> created_ids reqs.
        \<exists>b. getDrugBatchById st k = Some b \<and> db_status b = ''in_transit''}
      = {k. \<exists>b. map_of (drugBatches st) k = Some b \<and> db_status b = ''in_transit''}"
    unfolding k [symmetric] getDrugBatchById_def
    by (force dest: map_of_SomeD)
  with count_card [OF d, of "\<lambda>b. db_status b = ''in_transit''"] show ?thesis
    by (simp add: getDashboardStats_def values_of_def)
qed



subsection \<open>Queries by owner\<close>


lemmas server_defs =
  createRoute_def transferRoute_def getDrugBatchByBatchId_def getDrugBatchById_def
  updateDrugBatch_def createSupplyChainEvent_def createDrugBatch_def newMemStorage_def
  values_of_def or_null_def falsy_def Let_def


subsection \<open>The dashboard\<close>

text \<open>
  C8, as the storage computes it. In every storage reached from the empty one by
  write requests, the total of \<open>getDashboardStats\<close> is the number of ids under which
  batches were created, and the active transfers are the created batches whose
  stored status is "in_transit". The status is written by the requests alone: a
  successful transfer request gives the batch it finds the status "delivered" when
  its event type is "deliver" and "in_transit" for every other event type, changes
  no other batch and not the total, and moves the active transfers accordingly; a
  transfer request with any other answer changes nothing; a creation request under a
  new id gives its batch the status of the request, "manufactured" when it has
  none, adds one to the total, and adds one to the active transfers exactly when
  that status is "in_transit".
\<close>

theorem dashboard_counts_by_status:
  assumes "st = serve reqs newMemStorage"
  shows "totalBatches (getDashboardStats st) = card (created_ids reqs) \<and>
     activeTransfers (getDashboardStats st)
       = card {k \<in> created_ids reqs.
           \<exists>b. getDrugBatchById st k = Some b \<and> db_status b = ''in_transit''} \<and>
     (\<forall>eventId now body updated ev st'.
        transferRoute eventId now body st = (Status200 updated ev, st') \<longrightarrow>
        (\<exists>bid etype cur.
           body_batchId body = Some bid \<and> body_eventType body = Some etype \<and>
           getDrugBatchByBatchId st bid = Some cur \<and> db_id updated = db_id cur \<and>
           se_eventType ev = etype \<and>
           db_status updated = (if etype = ''deliver'' then ''delivered'' else ''in_transit'') \<and>
           totalBatches (getDashboardStats st') = totalBatches (getDashboardStats st) \<and>
           activeTransfers (getDashboardStats st')
               + (if db_status cur = ''in_transit'' then 1 else 0)
             = activeTransfers (getDashboardStats st)
               + (if etype = ''deliver'' then 0 else 1)) \<and>
        getDrugBatchById st' (db_id updated) = Some updated \<and>
        (\<forall>k. k \<noteq> db_id updated \<longrightarrow> getDrugBatchById st' k = getDrugBatchById st k)) \<and>
     (\<forall>eventId now body r st'.
        transferRoute eventId now body st = (r, st') \<and> (\<forall>u e. r \<noteq> Status200 u e) \<longrightarrow>
        st' = st) \<and>
     (\<forall>batchKey eventId now ins r st'.
        createRoute batchKey eventId now ins st = (r, st') \<and> batchKey \<notin> created_ids reqs \<longrightarrow>
        (\<exists>created ev. r = Status201 created ev \<and>
           db_status created
             = (case or_null (in_status ins) of None \<Rightarrow> ''manufactured'' | Some v \<Rightarrow> v) \<and>
           se_eventType ev = ''manufacture'' \<and>
           getDrugBatchById st' batchKey = Some created \<and>
           (\<forall>k. k \<noteq> batchKey \<longrightarrow> getDrugBatchById st' k = getDrugBatchById st k) \<and>
           totalBatches (getDashboardStats st') = totalBatches (getDashboardStats st) + 1 \<and>
           activeTransfers (getDashboardStats st')
             = activeTransfers (getDashboardStats st)
               + (if db_status created = ''in_transit'' then 1 else 0)))"
proof -
  have ok: "store_ok st" unfolding assms by (rule store_ok_serve [OF store_ok_new])
  have keys: "fst ` set (drugBatches st) = created_ids reqs"
    unfolding assms using keys_serve [OF store_ok_new, of reqs] by (simp add: newMemStorage_def)
  have 1: "totalBatches (getDashboardStats st) = card (created_ids reqs)"
    unfolding assms by (rule total_is_created)
  have 2: "activeTransfers (getDashboardStats st)
       = card {k \<in> created_ids reqs.
           \<exists>b. getDrugBatchById st k = Some b \<and> db_status b = ''in_transit''}"
    by (rule active_is_in_transit [OF assms])
  have 3: "\<forall>eventId now body updated ev st'.
        transferRoute eventId now body st = (Status200 updated ev, st') \<longrightarrow>
        (\<exists>bid etype cur.
           body_batchId body = Some bid \<and> body_eventType body = Some etype \<and>
           getDrugBatchByBatchId st bid = Some cur \<and> db_id updated = db_id cur \<and>
           se_eventType ev = etype \<and>
           db_status updated = (if etype = ''deliver'' then ''delivered'' else ''in_transit'') \<and>
           totalBatches (getDashboardStats st') = totalBatches (getDashboardStats st) \<and>
           activeTransfers (getDashboardStats st')
               + (if db_status cur = ''in_transit'' then 1 else 0)
             = activeTransfers (getDashboardStats st)
               + (if etype = ''deliver'' then 0 else 1)) \<and>
        getDrugBatchById st' (db_id updated) = Some updated \<and>
        (\<forall>k. k \<noteq> db_id updated \<longrightarrow> getDrugBatchById st' k = getDrugBatchById st k)"
  proof (intro allI impI)
    fix eventId now body updated ev st'
    assume r: "transferRoute eventId now body st = (Status200 updated ev, st')"
    from transfer_step(1) [OF ok r] transfer_step(3) [OF ok r] transfer_step(4) [OF ok r]
    show "(\<exists>bid etype cur.
           body_batchId body = Some bid \<and> body_eventType body = Some etype \<and>
           getDrugBatchByBatchId st bid = Some cur \<and> db_id updated = db_id cur \<and>
           se_eventType ev = etype \<and>
           db_status updated = (if etype = ''deliver'' then ''delivered'' else ''in_transit'') \<and>
           totalBatches (getDashboardStats st') = totalBatches (getDashboardStats st) \<and>
           activeTransfers (getDashboardStats st')
               + (if db_status cur = ''in_transit'' then 1 else 0)
             = activeTransfers (getDashboardStats st)
               + (if etype = ''deliver'' then 0 else 1)) \<and>
        getDrugBatchById st' (db_id updated) = Some updated \<and>
        (\<forall>k. k \<noteq> db_id updated \<longrightarrow> getDrugBatchById st' k = getDrugBatchById st k)"
      by (intro conjI)
  qed
  have 4: "\<forall>eventId now body r st'.
        transferRoute eventId now body st = (r, st') \<and> (\<forall>u e. r \<noteq> Status200 u e) \<longrightarrow>
        st' = st"
  proof (intro allI impI)
    fix eventId now body r st'
    assume a: "transferRoute eventId now body st = (r, st') \<and> (\<forall>u e. r \<noteq> Status200 u e)"
    show "st' = st" by (rule transferRoute_other [OF a [THEN conjunct1] a [THEN conjunct2]])
  qed
  have 5: "\<forall>batchKey eventId now ins r st'.
        createRoute batchKey eventId now ins st = (r, st') \<and> batchKey \<notin> created_ids reqs \<longrightarrow>
        (\<exists>created ev. r = Status201 created ev \<and>
           db_status created
             = (case or_null (in_status ins) of None \<Rightarrow> ''manufactured'' | Some v \<Rightarrow> v) \<and>
           se_eventType ev = ''manufacture'' \<and>
           getDrugBatchById st' batchKey = Some created \<and>
           (\<forall>k. k \<noteq> batchKey \<longrightarrow> getDrugBatchById st' k = getDrugBatchById st k) \<and>
           totalBatches (getDashboardStats st') = totalBatches (getDashboardStats st) + 1 \<and>
           activeTransfers (getDashboardStats st')
             = activeTransfers (getDashboardStats st)
               + (if db_status created = ''in_transit'' then 1 else 0))"
  proof (intro allI impI)
    fix batchKey eventId now ins r st'
    assume a: "createRoute batchKey eventId now ins st = (r, st') \<and> batchKey \<notin> created_ids reqs"
    from a keys have "batchKey \<notin> fst ` set (drugBatches st)" by simp
    then have n: "getDrugBatchById st batchKey = None"
      by (simp add: getDrugBatchById_def map_of_eq_None_iff)
    from create_step [OF a [THEN conjunct1]] obtain created ev where
      c: "r = Status201 created ev"
        "db_status created
             = (case or_null (in_status ins) of None \<Rightarrow> ''manufactured'' | Some v \<Rightarrow> v)"
        "se_eventType ev = ''manufacture''"
        "getDrugBatchById st' batchKey = Some created"
        "\<forall>k. k \<noteq> batchKey \<longrightarrow> getDrugBatchById st' k = getDrugBatchById st k"
      and s: "getDrugBatchById st batchKey = None \<longrightarrow>
         totalBatches (getDashboardStats st') = totalBatches (getDashboardStats st) + 1 \<and>
         activeTransfers (getDashboardStats st')
           = activeTransfers (getDashboardStats st)
             + (if db_status created = ''in_transit'' then 1 else 0)"
      by (elim exE conjE)
    from s n have t: "totalBatches (getDashboardStats st') = totalBatches (getDashboardStats st) + 1"
      and u: "activeTransfers (getDashboardStats st')
           = activeTransfers (getDashboardStats st)
             + (if db_status created = ''in_transit'' then 1 else 0)"
      by simp_all
    from c t u have "r = Status201 created ev \<and>
           db_status created
             = (case or_null (in_status ins) of None \<Rightarrow> ''manufactured'' | Some v \<Rightarrow> v) \<and>
           se_eventType ev = ''manufacture'' \<and>
           getDrugBatchById st' batchKey = Some created \<and>
           (\<forall>k. k \<noteq> batchKey \<longrightarrow> getDrugBatchById st' k = getDrugBatchById st k) \<and>
           totalBatches (getDashboardStats st') = totalBatches (getDashboardStats st) + 1 \<and>
           activeTransfers (getDashboardStats st')
             = activeTransfers (getDashboardStats st)
               + (if db_status created = ''in_transit'' then 1 else 0)"
      by (intro conjI)
    then show "\<exists>created ev. r = Status201 created ev \<and>
           db_status created
             = (case or_null (in_status ins) of None \<Rightarrow> ''manufactured'' | Some v \<Rightarrow> v) \<and>
           se_eventType ev = ''manufacture'' \<and>
           getDrugBatchById st' batchKey = Some created \<and>
           (\<forall>k. k \<noteq> batchKey \<longrightarrow> getDrugBatchById st' k = getDrugBatchById st k) \<and>
           totalBatches (getDashboardStats st') = totalBatches (getDashboardStats st) + 1 \<and>
           activeTransfers (getDashboardStats st')
             = activeTransfers (getDashboardStats st)
               + (if db_status created = ''in_transit'' then 1 else 0)"
      by (intro exI)
  qed
  from 1 2 3 4 5 show ?thesis by (intro conjI)
qed

text \<open>
  One batch is created and transferred with the event type "verify": one batch in
  total, one active transfer. A further transfer with the event type "deliver" is
  answered with the status "delivered" and leaves no active transfer.
\<close>

theorem dashboard_counts_by_status_witness:
  "totalBatches (getDashboardStats
      (serve [(1000, PostDrugBatch ''id1'' ''e0''
          \<lparr>in_batchId = ''B1'', in_drugName = ''Drug'', in_manufacturer = ''Maker'',
           in_manufacturingDate = 900, in_expiryDate = 5000, in_currentOwner = ''Maker'',
           in_currentOwnerAddress = ''0xAA11'', in_status = None, in_ipfsHash = None,
           in_contractAddress = None, in_tokenId = None\<rparr>),
        (2000, PostTransfer ''e1''
          \<lparr>body_batchId = Some ''B1'', body_newOwner = Some ''Pharmacy'',
           body_newOwnerAddress = Some ''0xAbCd'', body_eventType = Some ''verify'',
           body_transactionHash = None\<rparr>)] newMemStorage)) = 1 \<and>
   activeTransfers (getDashboardStats
      (serve [(1000, PostDrugBatch ''id1'' ''e0''
          \<lparr>in_batchId = ''B1'', in_drugName = ''Drug'', in_manufacturer = ''Maker'',
           in_manufacturingDate = 900, in_expiryDate = 5000, in_currentOwner = ''Maker'',
           in_currentOwnerAddress = ''0xAA11'', in_status = None, in_ipfsHash = None,
           in_contractAddress = None, in_tokenId = None\<rparr>),
        (2000, PostTransfer ''e1''
          \<lparr>body_batchId = Some ''B1'', body_newOwner = Some ''Pharmacy'',
           body_newOwnerAddress = Some ''0xAbCd'', body_eventType = Some ''verify'',
           body_transactionHash = None\<rparr>)] newMemStorage)) = 1 \<and>
   (\<exists>updated ev st'. transferRoute ''e2'' 3000
        \<lparr>body_batchId = Some ''B1'', body_newOwner = Some ''Patient'',
         body_newOwnerAddress = Some ''0xEf01'', body_eventType = Some ''deliver'',
         body_transactionHash = None\<rparr>
      (serve [(1000, PostDrugBatch ''id1'' ''e0''
          \<lparr>in_batchId = ''B1'', in_drugName = ''Drug'', in_manufacturer = ''Maker'',
           in_manufacturingDate = 900, in_expiryDate = 5000, in_currentOwner = ''Maker'',
           in_currentOwnerAddress = ''0xAA11'', in_status = None, in_ipfsHash = None,
           in_contractAddress = None, in_tokenId = None\<rparr>),
        (2000, PostTransfer ''e1''
          \<lparr>body_batchId = Some ''B1'', body_newOwner = Some ''Pharmacy'',
           body_newOwnerAddress = Some ''0xAbCd'', body_eventType = Some ''verify'',
           body_transactionHash = None\<rparr>)] newMemStorage)
      = (Status200 updated ev, st') \<and>
      db_status updated = ''delivered'' \<and>
      getDrugBatchById st' ''id1'' = Some updated \<and>
      activeTransfers (getDashboardStats st') = 0)"
proof -
  let ?ins = "\<lparr>in_batchId = ''B1'', in_drugName = ''Drug'', in_manufacturer = ''Maker'',
           in_manufacturingDate = 900, in_expiryDate = 5000, in_currentOwner = ''Maker'',
           in_currentOwnerAddress = ''0xAA11'', in_status = None, in_ipfsHash = None,
           in_contractAddress = None, in_tokenId = None\<rparr>"
  let ?verify = "\<lparr>body_batchId = Some ''B1'', body_newOwner = Some ''Pharmacy'',
           body_newOwnerAddress = Some ''0xAbCd'', body_eventType = Some ''verify'',
           body_transactionHash = None\<rparr>"
  let ?deliver = "\<lparr>body_batchId = Some ''B1'', body_newOwner = Some ''Patient'',
         body_newOwnerAddress = Some ''0xEf01'', body_eventType = Some ''deliver'',
         body_transactionHash = None\<rparr>"
  let ?reqs = "[(1000, PostDrugBatch ''id1'' ''e0'' ?ins), (2000, PostTransfer ''e1'' ?verify)]"
  let ?st = "serve ?reqs newMemStorage"
  note t = dashboard_counts_by_status [where st = ?st and reqs = ?reqs, OF refl]
  from t [THEN conjunct1] have n: "totalBatches (getDashboardStats ?st) = 1" by simp
  have "\<exists>b. getDrugBatchById ?st ''id1'' = Some b \<and> db_status b = ''in_transit''"
    by (simp add: server_defs)
  then have "{k \<in> created_ids ?reqs.
      \<exists>b. getDrugBatchById ?st k = Some b \<and> db_status b = ''in_transit''} = {''id1''}"
    by auto
  with t [THEN conjunct2, THEN conjunct1]
  have a: "activeTransfers (getDashboardStats ?st) = 1" by simp
  have "\<exists>updated ev st'. transferRoute ''e2'' 3000 ?deliver ?st = (Status200 updated ev, st') \<and>
      db_id updated = ''id1''"
    by (simp add: server_defs)
  then obtain updated ev st' where
    r: "transferRoute ''e2'' 3000 ?deliver ?st = (Status200 updated ev, st')"
    and i: "db_id updated = ''id1''" by blast
  from t [THEN conjunct2, THEN conjunct2, THEN conjunct1, rule_format, OF r]
  obtain bid etype cur where
    b: "body_batchId ?deliver = Some bid" "body_eventType ?deliver = Some etype"
    and c: "getDrugBatchByBatchId ?st bid = Some cur"
    and s: "db_status updated = (if etype = ''deliver'' then ''delivered'' else ''in_transit'')"
    and m: "activeTransfers (getDashboardStats st')
               + (if db_status cur = ''in_transit'' then 1 else 0)
             = activeTransfers (getDashboardStats ?st)
               + (if etype = ''deliver'' then 0 else 1)"
    and g: "getDrugBatchById st' (db_id updated) = Some updated"
    by (elim exE conjE)
  from b have e: "etype = ''deliver''" and "bid = ''B1''" by simp_all
  with c have "db_status cur = ''in_transit''" by (auto simp: server_defs)
  with m a e have z: "activeTransfers (getDashboardStats st') = 0" by simp
  from s e have d: "db_status updated = ''delivered''" by simp
  from g i have g': "getDrugBatchById st' ''id1'' = Some updated" by simp
  from r d g' z have "transferRoute ''e2'' 3000 ?deliver ?st = (Status200 updated ev, st') \<and>
      db_status updated = ''delivered'' \<and>
      getDrugBatchById st' ''id1'' = Some updated \<and>
      activeTransfers (getDashboardStats st') = 0"
    by (intro conjI)
  with n a show ?thesis by blast
qed

text \<open>
  A batch with the expiry date 2000 is created at time 1000 and transferred at time
  1500 with the event type "verify". Its events are "manufacture" and then "verify",
  so its most recent event is neither a transfer nor a distribution, and it is
  counted as an active transfer. At time 3000 its expiry date is not after the
  current time, and it is counted among the verified drugs.
\<close>

theorem verify_event_and_expired_batch_counted:
  "map db_batchId (values_of (drugBatches
      (serve [(1000, PostDrugBatch ''id1'' ''e0''
          \<lparr>in_batchId = ''B1'', in_drugName = ''Drug'', in_manufacturer = ''Maker'',
           in_manufacturingDate = 900, in_expiryDate = 2000, in_currentOwner = ''Maker'',
           in_currentOwnerAddress = ''0xAA11'', in_status = None, in_ipfsHash = None,
           in_contractAddress = None, in_tokenId = None\<rparr>),
        (1500, PostTransfer ''e1''
          \<lparr>body_batchId = Some ''B1'', body_newOwner = Some ''Pharmacy'',
           body_newOwnerAddress = Some ''0xAbCd'', body_eventType = Some ''verify'',
           body_transactionHash = None\<rparr>)] newMemStorage))) = [''B1''] \<and>
   map se_eventType (getSupplyChainEventsByBatchId
      (serve [(1000, PostDrugBatch ''id1'' ''e0''
          \<lparr>in_batchId = ''B1'', in_drugName = ''Drug'', in_manufacturer = ''Maker'',
           in_manufacturingDate = 900, in_expiryDate = 2000, in_currentOwner = ''Maker'',
           in_currentOwnerAddress = ''0xAA11'', in_status = None, in_ipfsHash = None,
           in_contractAddress = None, in_tokenId = None\<rparr>),
        (1500, PostTransfer ''e1''
          \<lparr>body_batchId = Some ''B1'', body_newOwner = Some ''Pharmacy'',
           body_newOwnerAddress = Some ''0xAbCd'', body_eventType = Some ''verify'',
           body_transactionHash = None\<rparr>)] newMemStorage) ''B1'')
     = [''manufacture'', ''verify''] \<and>
   activeTransfers (getDashboardStats
      (serve [(1000, PostDrugBatch ''id1'' ''e0''
          \<lparr>in_batchId = ''B1'', in_drugName = ''Drug'', in_manufacturer = ''Maker'',
           in_manufacturingDate = 900, in_expiryDate = 2000, in_currentOwner = ''Maker'',
           in_currentOwnerAddress = ''0xAA11'', in_status = None, in_ipfsHash = None,
           in_contractAddress = None, in_tokenId = None\<rparr>),
        (1500, PostTransfer ''e1''
          \<lparr>body_batchId = Some ''B1'', body_newOwner = Some ''Pharmacy'',
           body_newOwnerAddress = Some ''0xAbCd'', body_eventType = Some ''verify'',
           body_transactionHash = None\<rparr>)] newMemStorage)) = 1 \<and>
   map db_expiryDate (values_of (drugBatches
      (serve [(1000, PostDrugBatch ''id1'' ''e0''
          \<lparr>in_batchId = ''B1'', in_drugName = ''Drug'', in_manufacturer = ''Maker'',
           in_manufacturingDate = 900, in_expiryDate = 2000, in_currentOwner = ''Maker'',
           in_currentOwnerAddress = ''0xAA11'', in_status = None, in_ipfsHash = None,
           in_contractAddress = None, in_tokenId = None\<rparr>),
        (1500, PostTransfer ''e1''
          \<lparr>body_batchId = Some ''B1'', body_newOwner = Some ''Pharmacy'',
           body_newOwnerAddress = Some ''0xAbCd'', body_eventType = Some ''verify'',
           body_transactionHash = None\<rparr>)] newMemStorage))) = [2000] \<and>
   \<not> (2000 :: int) > 3000 \<and>
   verifiedDrugs (getDashboardStats
      (serve [(1000, PostDrugBatch ''id1'' ''e0''
          \<lparr>in_batchId = ''B1'', in_drugName = ''Drug'', in_manufacturer = ''Maker'',
           in_manufacturingDate = 900, in_expiryDate = 2000, in_currentOwner = ''Maker'',
           in_currentOwnerAddress = ''0xAA11'', in_status = None, in_ipfsHash = None,
           in_contractAddress = None, in_tokenId = None\<rparr>),
        (1500, PostTransfer ''e1''
          \<lparr>body_batchId = Some ''B1'', body_newOwner = Some ''Pharmacy'',
           body_newOwnerAddress = Some ''0xAbCd'', body_eventType = Some ''verify'',
           body_transactionHash = None\<rparr>)] newMemStorage)) = 1"
  by (simp add: server_defs getDashboardStats_def getSupplyChainEventsByBatchId_def)

end
